theory Spec2Isabelle
  imports Main
begin

section \<open>Python values, errors and library functions\<close>

text \<open>
  The module \<^verbatim>\<open>gfagraphs.py\<close> is embedded function by function. A raised exception is
  the left summand of a result; the classes the module can raise are listed below
  (\<^verbatim>\<open>JSONDecodeError\<close> is what \<^verbatim>\<open>json.loads\<close> raises).
\<close>

datatype error =
  ValueError | KeyError | IndexError | AttributeError | TypeError
  | NotImplementedError | JSONDecodeError

datatype Orientation = FORWARD | REVERSE

datatype GfaStyle = RGFA | GFA1 | GFA1_1 | GFA1_2 | GFA2 | UNK

text \<open>
  A Python float is kept as its IEEE-754 bit pattern; no arithmetic on floats is
  modelled, the conversions from and to text are parameters (see \<open>pylib\<close>).
\<close>

datatype pyfloat = Binary64 nat

text \<open>
  The values a field of a record can hold: what the tag decoder produces (an int, a
  float, a str, or whatever \<^verbatim>\<open>json.loads\<close> returns: None, a bool, an int, a float, a str,
  a list, a dict with str keys), and the list of (name, Orientation) tuples of a path.
\<close>

datatype pyval =
  PNone
  | PBool bool
  | PInt int
  | PFloat pyfloat
  | PStr string
  | PList "pyval list"
  | PDict "(string \<times> pyval) list"
  | PPath "(string \<times> Orientation) list"

text \<open>
  Library functions whose behaviour is outside this development are parameters:
  \<^verbatim>\<open>float(s)\<close>, \<^verbatim>\<open>json.loads(s)\<close>, \<^verbatim>\<open>str(v)\<close> for a float and for a list, dict or
  list of tuples (Python prints those with \<^verbatim>\<open>repr\<close> of their elements), \<^verbatim>\<open>int(x)\<close> for
  a float and the sum of a float and an int.
\<close>

record pylib =
  py_float :: "string \<Rightarrow> error + pyfloat"
  json_loads :: "string \<Rightarrow> error + pyval"
  str_float :: "pyfloat \<Rightarrow> string"
  str_container :: "pyval \<Rightarrow> string"
  int_float :: "pyfloat \<Rightarrow> error + int"
  float_add_int :: "pyfloat \<Rightarrow> int \<Rightarrow> error + pyfloat"

subsection \<open>Dictionaries\<close>

text \<open>
  A Python dict keeps insertion order, and the serializer iterates over it: a dict is an
  association list with distinct keys. Assigning to a key that is present replaces the
  value in place, assigning to a new key appends.
\<close>

type_synonym pydict = "(string \<times> pyval) list"

fun dict_set :: "pydict \<Rightarrow> string \<Rightarrow> pyval \<Rightarrow> pydict" where
  "dict_set [] k v = [(k, v)]"
| "dict_set ((k', v') # d) k v =
     (if k' = k then (k, v) # d else (k', v') # dict_set d k v)"

definition dict_has :: "pydict \<Rightarrow> string \<Rightarrow> bool" where
  "dict_has d k = (map_of d k \<noteq> None)"

definition getitem :: "pydict \<Rightarrow> string \<Rightarrow> error + pyval" where
  "getitem d k = (case map_of d k of None \<Rightarrow> Inl KeyError | Some v \<Rightarrow> Inr v)"

text \<open>\<^verbatim>\<open>{**a, **b}\<close>: the items of \<open>a\<close>, then those of \<open>b\<close> assigned in order.\<close>

definition dict_merge :: "pydict \<Rightarrow> pydict \<Rightarrow> pydict" where
  "dict_merge a b = fold (\<lambda>(k, v) d. dict_set d k v) b a"

subsection \<open>Strings and integers\<close>

definition TAB :: char where
  "TAB = CHR 0x09"

definition NL :: char where
  "NL = CHR 0x0A"

definition is_digit :: "char \<Rightarrow> bool" where
  "is_digit c = (c \<in> set ''0123456789'')"

definition is_upper :: "char \<Rightarrow> bool" where
  "is_upper c = (c \<in> set ''ABCDEFGHIJKLMNOPQRSTUVWXYZ'')"

definition is_lower :: "char \<Rightarrow> bool" where
  "is_lower c = (c \<in> set ''abcdefghijklmnopqrstuvwxyz'')"

text \<open>\<^verbatim>\<open>s.strip(chars)\<close> with the set of characters as a predicate.\<close>

definition strip :: "(char \<Rightarrow> bool) \<Rightarrow> string \<Rightarrow> string" where
  "strip P s = rev (dropWhile P (rev (dropWhile P s)))"

text \<open>\<^verbatim>\<open>s.split(sep)\<close> for a one-character separator: never an empty list.\<close>

fun py_split :: "char \<Rightarrow> string \<Rightarrow> string list" where
  "py_split sep [] = [[]]"
| "py_split sep (c # cs) =
     (if c = sep then [] # py_split sep cs
      else (case py_split sep cs of [] \<Rightarrow> [[c]] | w # ws \<Rightarrow> (c # w) # ws))"

text \<open>\<^verbatim>\<open>sep.join(xs)\<close>.\<close>

fun join :: "string \<Rightarrow> string list \<Rightarrow> string" where
  "join sep [] = []"
| "join sep [x] = x"
| "join sep (x # y # ys) = x @ sep @ join sep (y # ys)"

text \<open>\<^verbatim>\<open>s.replace(c, t)\<close> for a one-character pattern.\<close>

definition replace :: "char \<Rightarrow> string \<Rightarrow> string \<Rightarrow> string" where
  "replace c t s = concat (map (\<lambda>x. if x = c then t else [x]) s)"

text \<open>
  Indexing with a literal index: \<^verbatim>\<open>xs[i]\<close> for \<open>i \<ge> 0\<close> and \<^verbatim>\<open>xs[-1]\<close>; both raise
  IndexError out of range.
\<close>

definition nth_e :: "'a list \<Rightarrow> nat \<Rightarrow> error + 'a" where
  "nth_e xs i = (if i < length xs then Inr (xs ! i) else Inl IndexError)"

definition last_e :: "'a list \<Rightarrow> error + 'a" where
  "last_e xs = (if xs = [] then Inl IndexError else Inr (last xs))"

text \<open>
  Slices \<^verbatim>\<open>xs[a:b]\<close>, \<^verbatim>\<open>xs[:b]\<close>, \<^verbatim>\<open>xs[a:]\<close> with Python's treatment of negative and
  out-of-range bounds: a negative bound counts from the end, then both are clamped.
\<close>

definition clamp_index :: "nat \<Rightarrow> int \<Rightarrow> nat" where
  "clamp_index n i = (if i < 0 then nat (int n + i) else min n (nat i))"

definition slice :: "'a list \<Rightarrow> int \<Rightarrow> int \<Rightarrow> 'a list" where
  "slice xs a b = (let lo = clamp_index (length xs) a; hi = clamp_index (length xs) b
                   in take (hi - lo) (drop lo xs))"

definition slice_to :: "'a list \<Rightarrow> int \<Rightarrow> 'a list" where
  "slice_to xs b = take (clamp_index (length xs) b) xs"

definition slice_from :: "'a list \<Rightarrow> int \<Rightarrow> 'a list" where
  "slice_from xs a = drop (clamp_index (length xs) a) xs"

text \<open>\<^verbatim>\<open>'N' * n\<close>: the empty string for \<open>n \<le> 0\<close>.\<close>

definition repeat :: "char \<Rightarrow> int \<Rightarrow> string" where
  "repeat c n = replicate (nat n) c"

text \<open>
  \<^verbatim>\<open>str(n)\<close> for an int: decimal digits, a minus sign for a negative number. (For an
  int of more than 4300 digits \<^verbatim>\<open>str\<close> raises ValueError; the serializer is modelled for
  ints below that size.)
\<close>

definition digit_char :: "nat \<Rightarrow> char" where
  "digit_char d = ''0123456789'' ! d"

definition digit_val :: "char \<Rightarrow> nat" where
  "digit_val c = of_char c - 48"

fun str_nat :: "nat \<Rightarrow> string" where
  "str_nat n = (if n < 10 then [digit_char n] else str_nat (n div 10) @ [digit_char (n mod 10)])"

declare str_nat.simps [simp del]

definition str_int :: "int \<Rightarrow> string" where
  "str_int i = (if i < 0 then CHR ''-'' # str_nat (nat (- i)) else str_nat (nat i))"

definition val_digits :: "string \<Rightarrow> nat" where
  "val_digits s = fold (\<lambda>c acc. 10 * acc + digit_val c) s 0"

text \<open>
  \<^verbatim>\<open>int(s)\<close> for a str, base 10: surrounding whitespace is stripped, one sign is
  allowed, then decimal digits, where single underscores may separate digits; more than
  4300 digits raise ValueError (the interpreter's default limit). Characters are code
  points below 256. The whitespace \<^verbatim>\<open>int\<close> strips is the C whitespace (tab, newline,
  vertical tab, form feed, carriage return, space) and the two non-ASCII spaces below 256
  (0x85 and 0xA0); the separators 0x1C to 0x1F are not stripped.
\<close>

definition py_isspace :: "char \<Rightarrow> bool" where
  "py_isspace c = (c \<in> set [CHR 0x09, CHR 0x0A, CHR 0x0B, CHR 0x0C, CHR 0x0D, CHR 0x20,
                            CHR 0x85, CHR 0xA0])"

fun digits_us :: "string \<Rightarrow> bool" where
  "digits_us [] = False"
| "digits_us [c] = is_digit c"
| "digits_us (c # d # r) =
     (is_digit c \<and>
      (if d = CHR ''_'' then (case r of [] \<Rightarrow> False | e # _ \<Rightarrow> is_digit e \<and> digits_us r)
       else digits_us (d # r)))"

definition py_int :: "string \<Rightarrow> error + int" where
  "py_int s =
     (let t = strip py_isspace s;
          neg = (case t of [] \<Rightarrow> False | c # _ \<Rightarrow> c = CHR ''-'');
          body = (case t of [] \<Rightarrow> [] | c # r \<Rightarrow> if c = CHR ''-'' \<or> c = CHR ''+'' then r else t)
      in if digits_us body \<and> length (filter is_digit body) \<le> 4300
         then Inr ((if neg then - 1 else 1) * int (val_digits (filter is_digit body)))
         else Inl ValueError)"

text \<open>\<^verbatim>\<open>int(v)\<close> for a stored value: None, lists and dicts raise TypeError.\<close>

fun int_of_val :: "pylib \<Rightarrow> pyval \<Rightarrow> error + int" where
  "int_of_val L (PInt i) = Inr i"
| "int_of_val L (PBool b) = Inr (if b then 1 else 0)"
| "int_of_val L (PStr s) = py_int s"
| "int_of_val L (PFloat x) = int_float L x"
| "int_of_val L v = Inl TypeError"

text \<open>\<^verbatim>\<open>v + n\<close> (and \<^verbatim>\<open>v += n\<close>) for a stored value \<open>v\<close> and an int \<open>n\<close>.\<close>

fun add_int :: "pylib \<Rightarrow> pyval \<Rightarrow> int \<Rightarrow> error + pyval" where
  "add_int L (PInt i) n = Inr (PInt (i + n))"
| "add_int L (PBool b) n = Inr (PInt ((if b then 1 else 0) + n))"
| "add_int L (PFloat x) n = (case float_add_int L x n of Inl e \<Rightarrow> Inl e | Inr y \<Rightarrow> Inr (PFloat y))"
| "add_int L v n = Inl TypeError"

text \<open>
  \<^verbatim>\<open>'N' * v\<close>, \<^verbatim>\<open>len(v)\<close> and the slices \<^verbatim>\<open>v[a:b]\<close>, \<^verbatim>\<open>v[:b]\<close> of a stored value. A str, a
  list and a list of tuples can be sliced and measured; a dict can be measured, slicing
  it raises TypeError (unhashable slice).
\<close>

fun mul_N :: "pyval \<Rightarrow> error + pyval" where
  "mul_N (PInt n) = Inr (PStr (repeat (CHR ''N'') n))"
| "mul_N (PBool b) = Inr (PStr (repeat (CHR ''N'') (if b then 1 else 0)))"
| "mul_N v = Inl TypeError"

fun val_len :: "pyval \<Rightarrow> error + int" where
  "val_len (PStr s) = Inr (int (length s))"
| "val_len (PList xs) = Inr (int (length xs))"
| "val_len (PDict kvs) = Inr (int (length kvs))"
| "val_len (PPath ps) = Inr (int (length ps))"
| "val_len v = Inl TypeError"

fun val_slice :: "pyval \<Rightarrow> int \<Rightarrow> int \<Rightarrow> error + pyval" where
  "val_slice (PStr s) a b = Inr (PStr (slice s a b))"
| "val_slice (PList xs) a b = Inr (PList (slice xs a b))"
| "val_slice (PPath ps) a b = Inr (PPath (slice ps a b))"
| "val_slice v a b = Inl TypeError"

fun val_slice_to :: "pyval \<Rightarrow> int \<Rightarrow> error + pyval" where
  "val_slice_to (PStr s) b = Inr (PStr (slice_to s b))"
| "val_slice_to (PList xs) b = Inr (PList (slice_to xs b))"
| "val_slice_to (PPath ps) b = Inr (PPath (slice_to ps b))"
| "val_slice_to v b = Inl TypeError"

text \<open>\<^verbatim>\<open>v.split('/')\<close>: only a str has the method.\<close>

fun val_split :: "pyval \<Rightarrow> error + string list" where
  "val_split (PStr s) = Inr (py_split (CHR ''/'') s)"
| "val_split v = Inl AttributeError"

text \<open>An item of \<^verbatim>\<open>''.join(...)\<close> has to be a str.\<close>

fun join_item :: "pyval \<Rightarrow> error + string" where
  "join_item (PStr s) = Inr s"
| "join_item v = Inl TypeError"

text \<open>\<^verbatim>\<open>str(v)\<close>, which is also what an f-string field \<^verbatim>\<open>{v}\<close> prints.\<close>

fun py_str :: "pylib \<Rightarrow> pyval \<Rightarrow> string" where
  "py_str L PNone = ''None''"
| "py_str L (PBool b) = (if b then ''True'' else ''False'')"
| "py_str L (PInt i) = str_int i"
| "py_str L (PFloat x) = str_float L x"
| "py_str L (PStr s) = s"
| "py_str L v = str_container L v"

section \<open>Tag codec\<close>

text \<open>
  \<^verbatim>\<open>gtype\<close> returns the cast to apply (\<^verbatim>\<open>int\<close>, \<^verbatim>\<open>float\<close>, \<^verbatim>\<open>str\<close> or \<^verbatim>\<open>loads\<close>), or
  raises; \<open>apply_cast\<close> is the call of what it returned.
\<close>

datatype caster = Cint | Cfloat | Cstr | Cloads

definition gtype :: "string \<Rightarrow> error + caster" where
  "gtype tag_type =
     (if tag_type = ''i'' then Inr Cint
      else if tag_type = ''f'' then Inr Cfloat
      else if tag_type = ''A'' \<or> tag_type = ''Z'' then Inr Cstr
      else if tag_type = ''J'' then Inr Cloads
      else if tag_type = ''H'' \<or> tag_type = ''B'' then Inl NotImplementedError
      else Inl ValueError)"

definition apply_cast :: "pylib \<Rightarrow> caster \<Rightarrow> string \<Rightarrow> error + pyval" where
  "apply_cast L c s =
     (case c of
        Cint \<Rightarrow> (case py_int s of Inl e \<Rightarrow> Inl e | Inr i \<Rightarrow> Inr (PInt i))
      | Cfloat \<Rightarrow> (case py_float L s of Inl e \<Rightarrow> Inl e | Inr x \<Rightarrow> Inr (PFloat x))
      | Cstr \<Rightarrow> Inr (PStr s)
      | Cloads \<Rightarrow> json_loads L s)"

text \<open>
  \<^verbatim>\<open>dumps(data)\<close> succeeds on None, on lists and on dicts of values it succeeds on; an
  Orientation is not serializable, so a non-empty path list makes it raise TypeError.
\<close>

primrec dumps_ok :: "pyval \<Rightarrow> bool" where
  "dumps_ok PNone = True"
| "dumps_ok (PBool b) = True"
| "dumps_ok (PInt i) = True"
| "dumps_ok (PFloat x) = True"
| "dumps_ok (PStr s) = True"
| "dumps_ok (PList xs) = list_all (\<lambda>b. b) (map dumps_ok xs)"
| "dumps_ok (PDict kvs) = list_all (\<lambda>b. b) (map (\<lambda>kv. snd kv) (map (map_prod (\<lambda>k. k) dumps_ok) kvs))"
| "dumps_ok (PPath ps) = (ps = [])"

text \<open>\<^verbatim>\<open>dtype\<close>: a bool is an instance of \<^verbatim>\<open>int\<close>, so it gets the letter \<^verbatim>\<open>i\<close>.\<close>

definition dtype :: "pyval \<Rightarrow> error + string" where
  "dtype data =
     (case data of
        PBool b \<Rightarrow> Inr ''i''
      | PInt i \<Rightarrow> Inr ''i''
      | PFloat x \<Rightarrow> Inr ''f''
      | PStr s \<Rightarrow> Inr ''Z''
      | _ \<Rightarrow> if dumps_ok data then Inr ''J'' else Inl ValueError)"

text \<open>
  The regular expression \<^verbatim>\<open>[A-Z]{2}:[a-zA-Z]{1}:\<close>, matched at the start of the token
  by \<^verbatim>\<open>re.match\<close>.
\<close>

definition tag_match :: "string \<Rightarrow> bool" where
  "tag_match s =
     (case s of
        a # b # c # d # e # _ \<Rightarrow>
          is_upper a \<and> is_upper b \<and> c = CHR '':'' \<and> (is_lower d \<or> is_upper d) \<and> e = CHR '':''
      | _ \<Rightarrow> False)"

text \<open>
  \<^verbatim>\<open>supplementary_datas\<close>: the loop over \<^verbatim>\<open>datas[length_condition:]\<close>, with the mapping
  and the counter \<^verbatim>\<open>nargs\<close> as accumulators. An exception of the decoder leaves the
  function.
\<close>

fun supp_loop :: "pylib \<Rightarrow> string list \<Rightarrow> pydict \<Rightarrow> nat \<Rightarrow> error + pydict" where
  "supp_loop L [] mapping nargs = Inr mapping"
| "supp_loop L (additional_tag # rest) mapping nargs =
     (if tag_match additional_tag then
        (case gtype [additional_tag ! 3] of
           Inl e \<Rightarrow> Inl e
         | Inr c \<Rightarrow>
             (case apply_cast L c (drop 5 additional_tag) of
                Inl e \<Rightarrow> Inl e
              | Inr v \<Rightarrow> supp_loop L rest (dict_set mapping (take 2 additional_tag) v) nargs))
      else supp_loop L rest
             (dict_set mapping (''ARG'' @ str_nat nargs) (PStr additional_tag)) (nargs + 1))"

definition supplementary_datas :: "pylib \<Rightarrow> string list \<Rightarrow> nat \<Rightarrow> error + pydict" where
  "supplementary_datas L datas length_condition =
     (if length datas > length_condition
      then supp_loop L (drop length_condition datas) [] length_condition
      else Inr [])"

section \<open>Line classifier and field parsers\<close>

definition bindE :: "error + 'a \<Rightarrow> ('a \<Rightarrow> error + 'b) \<Rightarrow> error + 'b" where
  "bindE m f = (case m of Inl e \<Rightarrow> Inl e | Inr x \<Rightarrow> f x)"

text \<open>A list comprehension whose element expression can raise: the first exception wins.\<close>

fun mapE :: "('a \<Rightarrow> error + 'b) \<Rightarrow> 'a list \<Rightarrow> error + 'b list" where
  "mapE f [] = Inr []"
| "mapE f (x # xs) =
     (case f x of
        Inl e \<Rightarrow> Inl e
      | Inr y \<Rightarrow> (case mapE f xs of Inl e \<Rightarrow> Inl e | Inr ys \<Rightarrow> Inr (y # ys)))"

text \<open>The enum lookups \<^verbatim>\<open>Orientation(value)\<close> and \<^verbatim>\<open>GfaStyle(value)\<close>.\<close>

definition Orientation_of :: "string \<Rightarrow> error + Orientation" where
  "Orientation_of v =
     (if v = ''+'' then Inr FORWARD else if v = ''-'' then Inr REVERSE else Inl ValueError)"

definition GfaStyle_of :: "string \<Rightarrow> error + GfaStyle" where
  "GfaStyle_of v =
     (if v = ''rGFA'' then Inr RGFA
      else if v = ''GFA1'' then Inr GFA1
      else if v = ''GFA1.1'' then Inr GFA1_1
      else if v = ''GFA1.2'' then Inr GFA1_2
      else if v = ''GFA2'' then Inr GFA2
      else if v = ''unknown'' then Inr UNK
      else Inl ValueError)"

text \<open>
  The parsers take the split line, the style and the keyword argument \<^verbatim>\<open>ws\<close>
  (\<^verbatim>\<open>Graph\<close> always passes it). \<^verbatim>\<open>default\<close> and \<^verbatim>\<open>containment\<close> carry a suffix here:
  the first name is taken in HOL, the second is also a slot of \<^verbatim>\<open>Graph\<close>.
\<close>

definition default_line :: "pylib \<Rightarrow> string list \<Rightarrow> GfaStyle \<Rightarrow> error + pydict" where
  "default_line L datas gfa_style =
     (if gfa_style = RGFA then Inl ValueError else supplementary_datas L datas 0)"

definition header :: "pylib \<Rightarrow> string list \<Rightarrow> GfaStyle \<Rightarrow> error + pydict" where
  "header L datas gfa_style =
     (if gfa_style = RGFA then Inl ValueError else supplementary_datas L datas 1)"

text \<open>\<^verbatim>\<open>sub('\D', '', s)\<close> keeps the decimal digits of \<open>s\<close>.\<close>

definition segment :: "pylib \<Rightarrow> string list \<Rightarrow> GfaStyle \<Rightarrow> bool \<Rightarrow> error + pydict" where
  "segment L datas gfa_style ws =
     bindE (nth_e datas 1) (\<lambda>d1.
     bindE (nth_e datas 2) (\<lambda>d2.
       let line_datas = dict_set [] ''name'' (PStr (filter is_digit d1));
           line_datas = dict_set line_datas ''length'' (PInt (int (length d2)));
           line_datas = (if ws then dict_set line_datas ''seq'' (PStr d2) else line_datas)
       in bindE (supplementary_datas L datas 3) (\<lambda>supp. Inr (dict_merge line_datas supp))))"

definition line :: "pylib \<Rightarrow> string list \<Rightarrow> GfaStyle \<Rightarrow> error + pydict" where
  "line L datas gfa_style =
     bindE (nth_e datas 1) (\<lambda>d1.
     bindE (nth_e datas 3) (\<lambda>d3.
     bindE (nth_e datas 2) (\<lambda>d2.
     bindE (nth_e datas 4) (\<lambda>d4.
       let line_datas = dict_set [] ''start'' (PStr (filter is_digit d1));
           line_datas = dict_set line_datas ''end'' (PStr (filter is_digit d3));
           line_datas = dict_set line_datas ''orientation'' (PStr (d2 @ ''/'' @ d4))
       in bindE (supplementary_datas L datas 5) (\<lambda>supp. Inr (dict_merge line_datas supp))))))"

definition containment_line :: "pylib \<Rightarrow> string list \<Rightarrow> GfaStyle \<Rightarrow> error + pydict" where
  "containment_line L datas gfa_style =
     (if gfa_style = RGFA then Inl ValueError else supplementary_datas L datas 1)"

text \<open>A step of a P-line: \<^verbatim>\<open>(node[:-1], Orientation(node[-1]))\<close>.\<close>

definition path_node :: "string \<Rightarrow> error + (string \<times> Orientation)" where
  "path_node node =
     bindE (last_e node) (\<lambda>c. bindE (Orientation_of [c]) (\<lambda>ori. Inr (butlast node, ori)))"

definition path :: "pylib \<Rightarrow> string list \<Rightarrow> GfaStyle \<Rightarrow> error + pydict" where
  "path L datas gfa_style =
     (if gfa_style = RGFA then Inl ValueError
      else
        bindE (nth_e datas 1) (\<lambda>d1.
        bindE (nth_e datas 2) (\<lambda>d2.
        bindE (mapE path_node (py_split (CHR '','') d2)) (\<lambda>steps.
          let line_datas = dict_set [] ''name'' (PStr d1);
              line_datas = dict_set line_datas ''path'' (PPath steps)
          in bindE (supplementary_datas L datas 7) (\<lambda>supp.
               Inr (dict_merge line_datas supp))))))"

text \<open>A step of a W-line: \<^verbatim>\<open>(node[1:], Orientation(node[0]))\<close>.\<close>

definition walk_node :: "string \<Rightarrow> error + (string \<times> Orientation)" where
  "walk_node node =
     bindE (nth_e node 0) (\<lambda>c. bindE (Orientation_of [c]) (\<lambda>ori. Inr (tl node, ori)))"

definition walk :: "pylib \<Rightarrow> string list \<Rightarrow> GfaStyle \<Rightarrow> error + pydict" where
  "walk L datas gfa_style =
     (if gfa_style = RGFA \<or> gfa_style = GFA1 then Inl ValueError
      else
        bindE (nth_e datas 3) (\<lambda>d3.
        bindE (nth_e datas 2) (\<lambda>d2.
        bindE (py_int d2) (\<lambda>origin.
        bindE (nth_e datas 1) (\<lambda>d1.
        bindE (nth_e datas 4) (\<lambda>d4.
        bindE (nth_e datas 5) (\<lambda>d5.
        bindE (nth_e datas 6) (\<lambda>d6.
        bindE (mapE walk_node
                 (py_split (CHR '','')
                    (tl (replace (CHR ''<'') '',-'' (replace (CHR ''>'') '',+'' d6))))) (\<lambda>steps.
          let line_datas = dict_set [] ''id'' (PStr d3);
              line_datas = dict_set line_datas ''origin'' (PInt origin);
              line_datas = dict_set line_datas ''name'' (PStr d1);
              line_datas = dict_set line_datas ''start_offset'' (PStr d4);
              line_datas = dict_set line_datas ''stop_offset'' (PStr d5);
              line_datas = dict_set line_datas ''path'' (PPath steps)
          in bindE (supplementary_datas L datas 7) (\<lambda>supp.
               Inr (dict_merge line_datas supp)))))))))))"

definition jump :: "pylib \<Rightarrow> string list \<Rightarrow> GfaStyle \<Rightarrow> error + pydict" where
  "jump L datas gfa_style =
     (if gfa_style = RGFA \<or> gfa_style = GFA1 \<or> gfa_style = GFA1_1 then Inl ValueError
      else supplementary_datas L datas 1)"

text \<open>
  \<^verbatim>\<open>LineType\<close> maps the first character of a line to the parser and to the class the
  record is given; \<^verbatim>\<open>Record\<close> splits the line and calls the parser.
\<close>

datatype kind = Header | Segment | Line | Containment | Path | Walk | Jump | Other

definition LineType_type :: "char \<Rightarrow> kind" where
  "LineType_type key =
     (if key = CHR ''H'' then Header
      else if key = CHR ''S'' then Segment
      else if key = CHR ''L'' then Line
      else if key = CHR ''C'' then Containment
      else if key = CHR ''P'' then Path
      else if key = CHR ''W'' then Walk
      else if key = CHR ''J'' then Jump
      else Other)"

definition LineType_func :: "kind \<Rightarrow> pylib \<Rightarrow> string list \<Rightarrow> GfaStyle \<Rightarrow> bool \<Rightarrow> error + pydict" where
  "LineType_func k L datas gfa_style ws =
     (case k of
        Header \<Rightarrow> header L datas gfa_style
      | Segment \<Rightarrow> segment L datas gfa_style ws
      | Line \<Rightarrow> line L datas gfa_style
      | Containment \<Rightarrow> containment_line L datas gfa_style
      | Path \<Rightarrow> path L datas gfa_style
      | Walk \<Rightarrow> walk L datas gfa_style
      | Jump \<Rightarrow> jump L datas gfa_style
      | Other \<Rightarrow> default_line L datas gfa_style)"

definition Record :: "pylib \<Rightarrow> string \<Rightarrow> string \<Rightarrow> bool \<Rightarrow> error + (kind \<times> pydict)" where
  "Record L gfa_data_line gfa_type ws =
     (let datas = py_split TAB (strip (\<lambda>c. c = NL) gfa_data_line)
      in bindE (GfaStyle_of gfa_type) (\<lambda>gfastyle.
         bindE (nth_e gfa_data_line 0) (\<lambda>key.
         bindE (LineType_func (LineType_type key) L datas gfastyle ws) (\<lambda>d.
           Inr (LineType_type key, d)))))"

section \<open>Graph container\<close>

text \<open>
  The container keeps one list of records per class. A record is represented by its
  \<^verbatim>\<open>datas\<close> dict: its class is the list it stands in and its style is the style the
  graph was loaded with. The objects in the lists are pairwise distinct (each is created
  by one \<^verbatim>\<open>Record(...)\<close> call), so a reference to a record is its position in its list.
\<close>

record Graph =
  version :: GfaStyle
  headers :: "pydict list"
  segments :: "pydict list"
  lines :: "pydict list"
  containment :: "pydict list"
  paths :: "pydict list"
  walks :: "pydict list"
  jumps :: "pydict list"
  others :: "pydict list"

definition of_kind :: "kind \<Rightarrow> (kind \<times> pydict) list \<Rightarrow> pydict list" where
  "of_kind k recs = map snd (filter (\<lambda>r. fst r = k) recs)"

text \<open>\<^verbatim>\<open>Graph.__init__\<close>, on the lines the file reader yields.\<close>

definition Graph_init :: "pylib \<Rightarrow> string list \<Rightarrow> string \<Rightarrow> bool \<Rightarrow> error + Graph" where
  "Graph_init L gfa_file_lines gfa_type with_sequence =
     bindE (GfaStyle_of gfa_type) (\<lambda>ver.
     bindE (mapE (\<lambda>gfa_line. Record L gfa_line gfa_type with_sequence) gfa_file_lines) (\<lambda>gfa_lines.
       Inr \<lparr> version = ver,
             headers = of_kind Header gfa_lines,
             segments = of_kind Segment gfa_lines,
             lines = of_kind Line gfa_lines,
             containment = of_kind Containment gfa_lines,
             paths = of_kind Path gfa_lines,
             walks = of_kind Walk gfa_lines,
             jumps = of_kind Jump gfa_lines,
             others = of_kind Other gfa_lines \<rparr>))"

text \<open>
  \<^verbatim>\<open>get_segment_position\<close>: the scan over \<^verbatim>\<open>enumerate(self.segments)\<close>. A segment
  without a \<^verbatim>\<open>name\<close> met before the match raises KeyError. \<^verbatim>\<open>get_segment\<close> is the same
  scan and returns the record itself.
\<close>

fun find_segment :: "pydict list \<Rightarrow> string \<Rightarrow> nat \<Rightarrow> error + nat" where
  "find_segment [] node i = Inl ValueError"
| "find_segment (seg # rest) node i =
     (case getitem seg ''name'' of
        Inl e \<Rightarrow> Inl e
      | Inr v \<Rightarrow> if v = PStr node then Inr i else find_segment rest node (i + 1))"

definition get_segment_position :: "Graph \<Rightarrow> string \<Rightarrow> error + nat" where
  "get_segment_position g node = find_segment (segments g) node 0"

definition get_segment :: "Graph \<Rightarrow> string \<Rightarrow> error + pydict" where
  "get_segment g node = bindE (get_segment_position g node) (\<lambda>i. Inr (segments g ! i))"

definition get_path_list :: "Graph \<Rightarrow> pydict list" where
  "get_path_list g = paths g @ walks g"

text \<open>
  The condition of both edge lookups,
  \<^verbatim>\<open>node == edge.datas['start'] or node == edge.datas['stop']\<close>: the second lookup is
  only made when the first comparison fails.
\<close>

definition edge_touches :: "string \<Rightarrow> pydict \<Rightarrow> error + bool" where
  "edge_touches node edge =
     bindE (getitem edge ''start'') (\<lambda>s.
       if PStr node = s then Inr True
       else bindE (getitem edge ''stop'') (\<lambda>t. Inr (PStr node = t)))"

fun touching :: "string \<Rightarrow> pydict list \<Rightarrow> nat \<Rightarrow> error + (nat \<times> pydict) list" where
  "touching node [] i = Inr []"
| "touching node (edge # rest) i =
     (case edge_touches node edge of
        Inl e \<Rightarrow> Inl e
      | Inr b \<Rightarrow>
          (case touching node rest (i + 1) of
             Inl e \<Rightarrow> Inl e
           | Inr r \<Rightarrow> Inr (if b then (i, edge) # r else r)))"

definition get_edges :: "Graph \<Rightarrow> string \<Rightarrow> error + pydict list" where
  "get_edges g node = bindE (touching node (lines g) 0) (\<lambda>r. Inr (map snd r))"

definition get_edges_positions :: "Graph \<Rightarrow> string \<Rightarrow> error + nat list" where
  "get_edges_positions g node = bindE (touching node (lines g) 0) (\<lambda>r. Inr (map fst r))"

text \<open>\<^verbatim>\<open>assert_format\<close> returns the style and stores it in \<^verbatim>\<open>self.version\<close>.\<close>

definition assert_format :: "Graph \<Rightarrow> GfaStyle \<times> Graph" where
  "assert_format g =
     (let ver = version g;
          ver = (if length (others g) > 0 then GFA2
                 else if length (jumps g) > 0 then GFA1_2
                 else if length (walks g) > 0 then GFA1_1
                 else if length (headers g) > 0 \<or> length (paths g) > 0 then GFA1
                 else RGFA)
      in (ver, g\<lparr>version := ver\<rparr>))"

section \<open>Segment editor\<close>

subsection \<open>Splitting a segment\<close>

text \<open>
  The arguments as annotated: \<^verbatim>\<open>str | list\<close> for the new names, \<^verbatim>\<open>int | list\<close> for the
  positions. An int is not \<^verbatim>\<open>Iterable\<close> and is wrapped in a list; a str is
  \<^verbatim>\<open>Iterable\<close>, so it is kept, and its items are its characters.
\<close>

datatype names_arg = NameStr string | NameList "string list"

datatype pos_arg = PosInt int | PosList "int list"

fun names_of :: "names_arg \<Rightarrow> string list" where
  "names_of (NameStr s) = map (\<lambda>c. [c]) s"
| "names_of (NameList xs) = xs"

fun pos_of :: "pos_arg \<Rightarrow> int list" where
  "pos_of (PosInt p) = [p]"
| "pos_of (PosList ps) = ps"

text \<open>
  \<^verbatim>\<open>Segment()\<close> and \<^verbatim>\<open>Line()\<close>: both classes only annotate \<^verbatim>\<open>datas: dict\<close> in their body
  and define no \<^verbatim>\<open>__init__\<close>, so a new instance has no attribute \<^verbatim>\<open>datas\<close>. (The
  records of a loaded graph are built by \<^verbatim>\<open>Record.__init__\<close>, which assigns it.) An
  object is the dict its \<^verbatim>\<open>datas\<close> attribute holds, if it has one; reading the attribute
  of an object that has none raises AttributeError.
\<close>

definition new_object :: "pydict option" where
  "new_object = None"

definition attr_datas :: "pydict option \<Rightarrow> error + pydict" where
  "attr_datas obj = (case obj of None \<Rightarrow> Inl AttributeError | Some d \<Rightarrow> Inr d)"

text \<open>
  \<^verbatim>\<open>sequence = datas['seq'] if 'seq' in datas else 'N' * datas['length']\<close>
\<close>

definition sequence_of :: "pydict \<Rightarrow> error + pyval" where
  "sequence_of d =
     (if dict_has d ''seq'' then getitem d ''seq''
      else bindE (getitem d ''length'') mul_N)"

text \<open>
  The loop over the edges \<^verbatim>\<open>get_edges\<close> returned, given by their positions in
  \<^verbatim>\<open>self.lines\<close>. It returns the last value of \<^verbatim>\<open>orient\<close>; an exception leaves the edges
  rewritten so far in place.
\<close>

definition orient_of :: "pydict \<Rightarrow> bool \<Rightarrow> error + string" where
  "orient_of edge first =
     bindE (getitem edge ''orientation'') (\<lambda>v.
     bindE (val_split v) (\<lambda>parts.
       Inr (if first then hd parts else last parts)))"

fun split_edges ::
  "string \<Rightarrow> string list \<Rightarrow> nat list \<Rightarrow> pydict list \<Rightarrow> string \<Rightarrow> (error + string) \<times> pydict list"
where
  "split_edges segment_name names [] ls orient = (Inr orient, ls)"
| "split_edges segment_name names (i # rest) ls orient =
     (case getitem (ls ! i) ''start'' of
        Inl e \<Rightarrow> (Inl e, ls)
      | Inr s \<Rightarrow>
          if s = PStr segment_name then
            (case orient_of (ls ! i) True of
               Inl e \<Rightarrow> (Inl e, ls)
             | Inr ori \<Rightarrow>
                 (case last_e names of
                    Inl e \<Rightarrow> (Inl e, ls)
                  | Inr nm \<Rightarrow>
                      split_edges segment_name names rest
                        (ls[i := dict_set (ls ! i) ''start'' (PStr nm)]) ori))
          else
            (case orient_of (ls ! i) False of
               Inl e \<Rightarrow> (Inl e, ls)
             | Inr ori \<Rightarrow> split_edges segment_name names rest ls ori))"

text \<open>
  \<^verbatim>\<open>datas['seq'] = datas['seq'][:position_to_split[0]] if 'seq' in datas
    else 'N' * position_to_split[0]\<close>: the \<^verbatim>\<open>length\<close> field is not assigned.
\<close>

definition first_fragment :: "pydict \<Rightarrow> int list \<Rightarrow> error + pydict" where
  "first_fragment d poss =
     (if dict_has d ''seq'' then
        bindE (getitem d ''seq'') (\<lambda>v.
        bindE (nth_e poss 0) (\<lambda>p0.
        bindE (val_slice_to v p0) (\<lambda>w. Inr (dict_set d ''seq'' w))))
      else
        bindE (nth_e poss 0) (\<lambda>p0. Inr (dict_set d ''seq'' (PStr (repeat (CHR ''N'') p0)))))"

text \<open>
  The new segment and the new edge of one iteration. The first parameter is the newly
  constructed object (\<open>new_object\<close> in \<open>split_segments\<close>).
\<close>

definition split_new_segment ::
  "pydict option \<Rightarrow> string list \<Rightarrow> nat \<Rightarrow> pyval \<Rightarrow> int \<Rightarrow> int \<Rightarrow> error + pydict" where
  "split_new_segment new_seg names i sequence pos1 pos2 =
     bindE (nth_e names i) (\<lambda>nm.
     bindE (attr_datas new_seg) (\<lambda>d.
     bindE (val_slice sequence pos1 pos2) (\<lambda>sl.
     bindE (val_len sl) (\<lambda>n.
       Inr (dict_set (dict_set (dict_set d ''name'' (PStr nm)) ''seq'' sl) ''length'' (PInt n))))))"

definition split_new_edge :: "pydict option \<Rightarrow> string list \<Rightarrow> nat \<Rightarrow> string \<Rightarrow> error + pydict" where
  "split_new_edge new_edge names i orient =
     bindE (nth_e names i) (\<lambda>a.
     bindE (attr_datas new_edge) (\<lambda>d.
     bindE (nth_e names (i + 1)) (\<lambda>b.
       Inr (dict_set (dict_set (dict_set d ''start'' (PStr a)) ''stop'' (PStr b))
              ''orientation'' (PStr (orient @ ''/'' @ orient))))))"

text \<open>
  The rewriting of one path: the loop runs over the list the path held when the loop
  started (\<open>old\<close>), each match rebinds \<^verbatim>\<open>datas['path']\<close> (\<open>cur\<close>) to
  \<^verbatim>\<open>cur[:posx] + [(nname, Orientation(orient)) for nname in names] + cur[posx:]\<close>.
\<close>

definition new_steps :: "string list \<Rightarrow> string \<Rightarrow> error + (string \<times> Orientation) list" where
  "new_steps names orient =
     mapE (\<lambda>nname. bindE (Orientation_of orient) (\<lambda>ori. Inr (nname, ori))) names"

fun split_path_loop ::
  "string \<Rightarrow> string list \<Rightarrow> string \<Rightarrow> (string \<times> Orientation) list \<Rightarrow> nat
   \<Rightarrow> (string \<times> Orientation) list \<Rightarrow> (error + unit) \<times> (string \<times> Orientation) list"
where
  "split_path_loop segment_name names orient [] posx cur = (Inr (), cur)"
| "split_path_loop segment_name names orient (step # old) posx cur =
     (if fst step = segment_name then
        (case new_steps names orient of
           Inl e \<Rightarrow> (Inl e, cur)
         | Inr ns \<Rightarrow>
             split_path_loop segment_name names orient old (posx + 1)
               (take posx cur @ ns @ drop posx cur))
      else split_path_loop segment_name names orient old (posx + 1) cur)"

definition split_path ::
  "string \<Rightarrow> string list \<Rightarrow> string \<Rightarrow> (string \<times> Orientation) list
   \<Rightarrow> (error + unit) \<times> (string \<times> Orientation) list" where
  "split_path segment_name names orient p = split_path_loop segment_name names orient p 0 p"

text \<open>
  A Path or Walk record holds a list of tuples under \<^verbatim>\<open>path\<close> (both parsers store one,
  and no tag or overflow key can replace it); for any other kind of value the model raises
  TypeError.
\<close>

definition split_record :: "string \<Rightarrow> string list \<Rightarrow> string \<Rightarrow> pydict \<Rightarrow> (error + unit) \<times> pydict" where
  "split_record segment_name names orient ipath =
     (case getitem ipath ''path'' of
        Inl e \<Rightarrow> (Inl e, ipath)
      | Inr (PPath p) \<Rightarrow>
          (case split_path segment_name names orient p of
             (res, p') \<Rightarrow> (res, dict_set ipath ''path'' (PPath p')))
      | Inr _ \<Rightarrow> (Inl TypeError, ipath))"

fun split_records ::
  "string \<Rightarrow> string list \<Rightarrow> string \<Rightarrow> pydict list \<Rightarrow> (error + unit) \<times> pydict list" where
  "split_records segment_name names orient [] = (Inr (), [])"
| "split_records segment_name names orient (ipath # rest) =
     (case split_record segment_name names orient ipath of
        (Inl e, r) \<Rightarrow> (Inl e, r # rest)
      | (Inr u, r) \<Rightarrow>
          (case split_records segment_name names orient rest of
             (res, rs) \<Rightarrow> (res, r # rs)))"

text \<open>The loop over \<^verbatim>\<open>self.get_path_list()\<close>: the paths, then the walks.\<close>

definition split_paths :: "string \<Rightarrow> string list \<Rightarrow> string \<Rightarrow> Graph \<Rightarrow> (error + unit) \<times> Graph" where
  "split_paths segment_name names orient g =
     (case split_records segment_name names orient (paths g) of
        (Inl e, ps) \<Rightarrow> (Inl e, g\<lparr>paths := ps\<rparr>)
      | (Inr u, ps) \<Rightarrow>
          (case split_records segment_name names orient (walks g) of
             (res, ws) \<Rightarrow> (res, g\<lparr>paths := ps, walks := ws\<rparr>)))"

text \<open>
  The main loop, over \<^verbatim>\<open>enumerate(positions[:-1])\<close> where
  \<^verbatim>\<open>positions = position_to_split + [len(sequence)]\<close>.
\<close>

fun split_loop ::
  "pydict option \<Rightarrow> string \<Rightarrow> string list \<Rightarrow> string \<Rightarrow> pyval \<Rightarrow> int list
   \<Rightarrow> (nat \<times> int) list \<Rightarrow> Graph \<Rightarrow> (error + unit) \<times> Graph"
where
  "split_loop fresh segment_name names orient sequence positions [] g = (Inr (), g)"
| "split_loop fresh segment_name names orient sequence positions ((i, pos1) # todo) g =
     (case nth_e positions (i + 1) of
        Inl e \<Rightarrow> (Inl e, g)
      | Inr pos2 \<Rightarrow>
          (case split_new_segment fresh names i sequence pos1 pos2 of
             Inl e \<Rightarrow> (Inl e, g)
           | Inr new_seg \<Rightarrow>
               (case split_new_edge fresh names i orient of
                  Inl e \<Rightarrow> (Inl e, g\<lparr>segments := segments g @ [new_seg]\<rparr>)
                | Inr new_edge \<Rightarrow>
                    (case split_paths segment_name names orient
                            (g\<lparr>segments := segments g @ [new_seg],
                               lines := lines g @ [new_edge]\<rparr>) of
                       (Inl e, g') \<Rightarrow> (Inl e, g')
                     | (Inr u, g') \<Rightarrow>
                         split_loop fresh segment_name names orient sequence positions todo g'))))"

text \<open>
  \<^verbatim>\<open>split_segments\<close>, with the object the constructors return as a parameter. The result
  is the exception or the normal return, together with the graph as the call leaves it.
\<close>

definition split_segments_on ::
  "pydict option \<Rightarrow> Graph \<Rightarrow> string \<Rightarrow> names_arg \<Rightarrow> pos_arg \<Rightarrow> (error + unit) \<times> Graph" where
  "split_segments_on fresh g segment_name future_segment_name position_to_split =
     (case get_segment_position g segment_name of
        Inl e \<Rightarrow> (Inl e, g)
      | Inr p \<Rightarrow>
          if length (names_of future_segment_name) \<noteq> length (pos_of position_to_split)
          then (Inl ValueError, g)
          else
            (case sequence_of (segments g ! p) of
               Inl e \<Rightarrow> (Inl e, g)
             | Inr sequence \<Rightarrow>
                 (case get_edges_positions g segment_name of
                    Inl e \<Rightarrow> (Inl e, g)
                  | Inr edges_of_node \<Rightarrow>
                      (case split_edges segment_name (names_of future_segment_name)
                              edges_of_node (lines g) [] of
                         (Inl e, ls) \<Rightarrow> (Inl e, g\<lparr>lines := ls\<rparr>)
                       | (Inr orient, ls) \<Rightarrow>
                           (case first_fragment (segments g ! p) (pos_of position_to_split) of
                              Inl e \<Rightarrow> (Inl e, g\<lparr>lines := ls\<rparr>)
                            | Inr seg \<Rightarrow>
                                (case val_len sequence of
                                   Inl e \<Rightarrow>
                                     (Inl e, g\<lparr>lines := ls, segments := (segments g)[p := seg]\<rparr>)
                                 | Inr n \<Rightarrow>
                                     split_loop fresh segment_name
                                       (names_of future_segment_name) orient sequence
                                       (pos_of position_to_split @ [n])
                                       (enumerate 0 (pos_of position_to_split))
                                       (g\<lparr>lines := ls,
                                          segments := (segments g)[p := seg]\<rparr>)))))))"

definition split_segments ::
  "Graph \<Rightarrow> string \<Rightarrow> names_arg \<Rightarrow> pos_arg \<Rightarrow> (error + unit) \<times> Graph" where
  "split_segments g segment_name future_segment_name position_to_split =
     split_segments_on new_object g segment_name future_segment_name position_to_split"

subsection \<open>Merging segments\<close>

text \<open>
  The scan of one path: \<^verbatim>\<open>start_pos\<close> and \<^verbatim>\<open>end_pos\<close> start at 0 and take the index of
  each step named left, and else of each step named right. The path is cut when both
  are non-zero.
\<close>

fun merge_scan ::
  "string \<Rightarrow> string \<Rightarrow> (string \<times> Orientation) list \<Rightarrow> nat \<Rightarrow> nat \<times> nat \<Rightarrow> nat \<times> nat" where
  "merge_scan left_most_name right_most_name [] i se = se"
| "merge_scan left_most_name right_most_name (step # rest) i se =
     merge_scan left_most_name right_most_name rest (i + 1)
       (if fst step = left_most_name then (i, snd se)
        else if fst step = right_most_name then (fst se, i)
        else se)"

definition merge_path ::
  "string \<Rightarrow> string \<Rightarrow> (string \<times> Orientation) list \<Rightarrow> (string \<times> Orientation) list" where
  "merge_path left_most_name right_most_name p =
     (let se = merge_scan left_most_name right_most_name p 0 (0, 0);
          start_pos = fst se;
          end_pos = snd se
      in if start_pos \<noteq> 0 \<and> end_pos \<noteq> 0
         then take (min start_pos end_pos) p @ drop (max start_pos end_pos) p
         else p)"

definition merge_record :: "string \<Rightarrow> string \<Rightarrow> pydict \<Rightarrow> error + pydict" where
  "merge_record left_most_name right_most_name ipath =
     (case getitem ipath ''path'' of
        Inl e \<Rightarrow> Inl e
      | Inr (PPath p) \<Rightarrow>
          Inr (dict_set ipath ''path'' (PPath (merge_path left_most_name right_most_name p)))
      | Inr _ \<Rightarrow> Inl TypeError)"

fun merge_records :: "string \<Rightarrow> string \<Rightarrow> pydict list \<Rightarrow> (error + unit) \<times> pydict list" where
  "merge_records left_most_name right_most_name [] = (Inr (), [])"
| "merge_records left_most_name right_most_name (ipath # rest) =
     (case merge_record left_most_name right_most_name ipath of
        Inl e \<Rightarrow> (Inl e, ipath # rest)
      | Inr r \<Rightarrow>
          (case merge_records left_most_name right_most_name rest of
             (res, rs) \<Rightarrow> (res, r # rs)))"

definition merge_paths :: "string \<Rightarrow> string \<Rightarrow> Graph \<Rightarrow> (error + unit) \<times> Graph" where
  "merge_paths left_most_name right_most_name g =
     (case merge_records left_most_name right_most_name (paths g) of
        (Inl e, ps) \<Rightarrow> (Inl e, g\<lparr>paths := ps\<rparr>)
      | (Inr u, ps) \<Rightarrow>
          (case merge_records left_most_name right_most_name (walks g) of
             (res, ws) \<Rightarrow> (res, g\<lparr>paths := ps, walks := ws\<rparr>)))"

text \<open>
  The loop over \<^verbatim>\<open>edges_to_edit\<close>: an edge that starts at the right-most segment gets
  the left-most name as \<^verbatim>\<open>start\<close>, any other one gets it under the key \<^verbatim>\<open>stop\<close>.
\<close>

fun merge_edges :: "string \<Rightarrow> string \<Rightarrow> nat list \<Rightarrow> pydict list \<Rightarrow> (error + unit) \<times> pydict list" where
  "merge_edges left_most_name right_most_name [] ls = (Inr (), ls)"
| "merge_edges left_most_name right_most_name (edge_pos # rest) ls =
     (case getitem (ls ! edge_pos) ''start'' of
        Inl e \<Rightarrow> (Inl e, ls)
      | Inr s \<Rightarrow>
          merge_edges left_most_name right_most_name rest
            (ls[edge_pos := dict_set (ls ! edge_pos)
                  (if s = PStr right_most_name then ''start'' else ''stop'')
                  (PStr left_most_name)]))"

text \<open>
  \<^verbatim>\<open>[x for i, x in enumerate(xs) if i not in positions]\<close>
\<close>

definition drop_positions :: "nat list \<Rightarrow> 'a list \<Rightarrow> 'a list" where
  "drop_positions positions xs =
     map snd (filter (\<lambda>ix. fst ix \<notin> set positions) (enumerate 0 xs))"

text \<open>
  The name of a segment that a lookup by name has found is a str; \<open>name_of\<close> reads it.
\<close>

definition name_of :: "pydict \<Rightarrow> error + string" where
  "name_of seg =
     (case getitem seg ''name'' of
        Inl e \<Rightarrow> Inl e
      | Inr (PStr s) \<Rightarrow> Inr s
      | Inr _ \<Rightarrow> Inl TypeError)"

text \<open>
  The first part of \<^verbatim>\<open>merge_segments\<close>: the positions of the operands, ordered by
  \<^verbatim>\<open>sorted(segs, key=lambda x: int(x))\<close> (a stable sort).
\<close>

definition merge_positions :: "Graph \<Rightarrow> string list \<Rightarrow> error + nat list" where
  "merge_positions g segs =
     bindE (mapE py_int segs) (\<lambda>keys.
       mapE (get_segment_position g) (map snd (sort_key fst (zip keys segs))))"

text \<open>The edit of the left-most segment: \<^verbatim>\<open>length\<close>, then \<^verbatim>\<open>seq\<close> if it has one.\<close>

definition merge_length :: "pylib \<Rightarrow> pydict list \<Rightarrow> nat list \<Rightarrow> error + pydict list" where
  "merge_length L segs segments_positions =
     bindE (nth_e segments_positions 0) (\<lambda>lp.
     bindE (getitem (segs ! lp) ''length'') (\<lambda>len0.
     bindE (mapE (\<lambda>i. bindE (getitem (segs ! i) ''length'') (int_of_val L))
              (tl segments_positions)) (\<lambda>lens.
     bindE (add_int L len0 (sum_list lens)) (\<lambda>len1.
       Inr (segs[lp := dict_set (segs ! lp) ''length'' len1])))))"

definition merge_seq :: "pydict list \<Rightarrow> nat list \<Rightarrow> error + pydict list" where
  "merge_seq segs segments_positions =
     bindE (nth_e segments_positions 0) (\<lambda>lp.
       if dict_has (segs ! lp) ''seq'' then
         bindE (mapE (\<lambda>i. getitem (segs ! i) ''seq'') segments_positions) (\<lambda>vals.
         bindE (mapE join_item vals) (\<lambda>strs.
           Inr (segs[lp := dict_set (segs ! lp) ''seq'' (PStr (concat strs))])))
       else Inr segs)"

definition merge_segments :: "pylib \<Rightarrow> Graph \<Rightarrow> string list \<Rightarrow> (error + string) \<times> Graph" where
  "merge_segments L g segs =
     (case merge_positions g segs of
        Inl e \<Rightarrow> (Inl e, g)
      | Inr segments_positions \<Rightarrow>
     (case nth_e segments_positions 0 of
        Inl e \<Rightarrow> (Inl e, g)
      | Inr lp \<Rightarrow>
     (case last_e segments_positions of
        Inl e \<Rightarrow> (Inl e, g)
      | Inr rp \<Rightarrow>
     (case merge_length L (segments g) segments_positions of
        Inl e \<Rightarrow> (Inl e, g)
      | Inr segs1 \<Rightarrow>
     (case merge_seq segs1 segments_positions of
        Inl e \<Rightarrow> (Inl e, g\<lparr>segments := segs1\<rparr>)
      | Inr segs2 \<Rightarrow>
     (case name_of (segs2 ! rp) of
        Inl e \<Rightarrow> (Inl e, g\<lparr>segments := segs2\<rparr>)
      | Inr right_most_name \<Rightarrow>
     (case get_edges_positions (g\<lparr>segments := segs2\<rparr>) right_most_name of
        Inl e \<Rightarrow> (Inl e, g\<lparr>segments := segs2\<rparr>)
      | Inr edges_to_edit \<Rightarrow>
     (case name_of (segs2 ! lp) of
        Inl e \<Rightarrow> (Inl e, g\<lparr>segments := segs2\<rparr>)
      | Inr left_most_name \<Rightarrow>
     (case merge_edges left_most_name right_most_name edges_to_edit (lines g) of
        (Inl e, ls) \<Rightarrow> (Inl e, g\<lparr>segments := segs2, lines := ls\<rparr>)
      | (Inr u, ls) \<Rightarrow>
     (case mapE (\<lambda>node_pos.
                   bindE (name_of (segs2 ! node_pos))
                     (get_edges_positions (g\<lparr>segments := segs2, lines := ls\<rparr>)))
             (butlast (tl segments_positions)) of
        Inl e \<Rightarrow> (Inl e, g\<lparr>segments := segs2, lines := ls\<rparr>)
      | Inr dels \<Rightarrow>
     (case merge_paths left_most_name right_most_name (g\<lparr>segments := segs2, lines := ls\<rparr>) of
        (Inl e, g') \<Rightarrow> (Inl e, g')
      | (Inr u, g') \<Rightarrow>
          (Inr left_most_name,
           g'\<lparr>segments := drop_positions (butlast (tl segments_positions)) (segments g'),
              lines := drop_positions (concat dels) (lines g')\<rparr>))))))))))))"

section \<open>Serializer\<close>

text \<open>
  A field of the tag list of a saved line:
  \<^verbatim>\<open>f"{key}:{dtype(value)}:{value}" if not key.startswith('ARG') else str(value)\<close>.
\<close>

definition tag_text :: "pylib \<Rightarrow> string \<times> pyval \<Rightarrow> error + string" where
  "tag_text L kv =
     (if take 3 (fst kv) = ''ARG'' then Inr (py_str L (snd kv))
      else bindE (dtype (snd kv)) (\<lambda>t.
             Inr (fst kv @ '':'' @ t @ '':'' @ py_str L (snd kv))))"

definition tags_text :: "pylib \<Rightarrow> string list \<Rightarrow> pydict \<Rightarrow> error + string" where
  "tags_text L excluded d =
     bindE (mapE (tag_text L) (filter (\<lambda>kv. fst kv \<notin> set excluded) d)) (\<lambda>ts.
       Inr (join [TAB] ts))"

definition header_text :: "pylib \<Rightarrow> pydict \<Rightarrow> error + string" where
  "header_text L head =
     bindE (tags_text L [] head) (\<lambda>ts. Inr (''H'' @ [TAB] @ ts @ [NL]))"

definition segment_text :: "pylib \<Rightarrow> pydict \<Rightarrow> error + string" where
  "segment_text L seg =
     bindE (getitem seg ''name'') (\<lambda>nm.
     bindE (sequence_of seg) (\<lambda>sq.
     bindE (tags_text L [''length'', ''seq'', ''name''] seg) (\<lambda>ts.
       Inr (''S'' @ [TAB] @ py_str L nm @ [TAB] @ py_str L sq @ [TAB] @ ts @ [NL]))))"

text \<open>\<^verbatim>\<open>ori1, ori2 = lin.datas['orientation'].split('/')\<close> needs exactly two parts.\<close>

definition line_text :: "pylib \<Rightarrow> pydict \<Rightarrow> error + string" where
  "line_text L lin =
     bindE (getitem lin ''orientation'') (\<lambda>v.
     bindE (val_split v) (\<lambda>parts.
       if length parts \<noteq> 2 then Inl ValueError
       else
         bindE (getitem lin ''start'') (\<lambda>s.
         bindE (getitem lin ''end'') (\<lambda>t.
         bindE (tags_text L [''orientation'', ''start'', ''end''] lin) (\<lambda>ts.
           Inr (''L'' @ [TAB] @ py_str L s @ [TAB] @ parts ! 0 @ [TAB] @ py_str L t @ [TAB]
                @ parts ! 1 @ [TAB] @ ts @ [NL]))))))"

definition path_steps :: "pydict \<Rightarrow> error + (string \<times> Orientation) list" where
  "path_steps way =
     (case getitem way ''path'' of
        Inl e \<Rightarrow> Inl e
      | Inr (PPath p) \<Rightarrow> Inr p
      | Inr _ \<Rightarrow> Inl TypeError)"

definition write_path :: "pylib \<Rightarrow> pydict \<Rightarrow> GfaStyle \<Rightarrow> nat \<Rightarrow> error + string" where
  "write_path L way gfa_format line_number =
     (if gfa_format = GFA1 then
        bindE (path_steps way) (\<lambda>p.
        bindE (getitem way ''name'') (\<lambda>nm.
          Inr (''P'' @ [TAB] @ py_str L nm @ [TAB]
               @ join '','' (map (\<lambda>step. fst step @ (if snd step = FORWARD then ''+'' else ''-'')) p)
               @ [TAB] @ ''*'')))
      else if gfa_format = GFA1_1 \<or> gfa_format = GFA1_2 \<or> gfa_format = GFA2 then
        (let offset_start = (case map_of way ''start_offset'' of None \<Rightarrow> PStr ''?'' | Some v \<Rightarrow> v);
             offset_stop = (case map_of way ''stop_offset'' of None \<Rightarrow> PStr ''?'' | Some v \<Rightarrow> v)
         in bindE (path_steps way) (\<lambda>p.
            bindE (getitem way ''name'') (\<lambda>nm.
              Inr (''W'' @ [TAB] @ py_str L nm @ [TAB]
                   @ (case map_of way ''origin'' of
                        None \<Rightarrow> str_nat line_number | Some v \<Rightarrow> py_str L v)
                   @ [TAB] @ py_str L nm @ [TAB] @ py_str L offset_start @ [TAB]
                   @ py_str L offset_stop @ [TAB]
                   @ concat (map (\<lambda>step. (if snd step = FORWARD then ''>'' else ''<'') @ fst step) p)
                   @ [TAB] @ ''*'' @ [NL]))))
      else Inr [])"

text \<open>
  \<^verbatim>\<open>save_graph\<close>: the text written to the file, or the exception (what an interrupted
  call has written before is not kept).
\<close>

definition save_graph :: "pylib \<Rightarrow> Graph \<Rightarrow> GfaStyle option \<Rightarrow> error + string" where
  "save_graph L g output_format =
     (let fmt = (case output_format of None \<Rightarrow> version g | Some f \<Rightarrow> f)
      in bindE (if headers g \<noteq> [] \<and> fmt \<noteq> RGFA then mapE (header_text L) (headers g) else Inr []) (\<lambda>hs.
         bindE (mapE (segment_text L) (segments g)) (\<lambda>ss.
         bindE (mapE (line_text L) (lines g)) (\<lambda>ls.
         bindE (mapE (\<lambda>ip. write_path L (snd ip) fmt (fst ip)) (enumerate 0 (get_path_list g))) (\<lambda>ps.
           Inr (concat (hs @ ss @ ls @ ps)))))))"

text \<open>
  The lines a text file yields when iterated. The file is opened in text mode, which
  reads \<^verbatim>\<open>\r\n\<close> and a lone \<^verbatim>\<open>\r\<close> as \<^verbatim>\<open>\n\<close>; each line keeps its newline.
\<close>

definition CR :: char where
  "CR = CHR 0x0D"

fun translate_newlines :: "string \<Rightarrow> string" where
  "translate_newlines [] = []"
| "translate_newlines [c] = [if c = CR then NL else c]"
| "translate_newlines (c # d # cs) =
     (if c = CR \<and> d = NL then NL # translate_newlines cs
      else if c = CR then NL # translate_newlines (d # cs)
      else c # translate_newlines (d # cs))"

fun split_lines :: "string \<Rightarrow> string list" where
  "split_lines [] = []"
| "split_lines (c # cs) =
     (if c = NL then [c] # split_lines cs
      else (case split_lines cs of
              [] \<Rightarrow> [[c]]
            | l # ls \<Rightarrow> (c # l) # ls))"

definition file_lines :: "string \<Rightarrow> string list" where
  "file_lines text = split_lines (translate_newlines text)"

section \<open>Example graphs\<close>

text \<open>
  Three segments 1, 2, 3 without edges, a path through 9, 1, 2, 3, 4 and a walk through
  9, 1, 4.
\<close>

definition g_merge :: Graph where
  "g_merge = \<lparr>version = GFA1_1, headers = [],
     segments = [[(''name'', PStr ''1''), (''length'', PInt 2), (''seq'', PStr ''AC'')],
                 [(''name'', PStr ''2''), (''length'', PInt 1), (''seq'', PStr ''G'')],
                 [(''name'', PStr ''3''), (''length'', PInt 1), (''seq'', PStr ''T'')]],
     lines = [], containment = [],
     paths = [[(''name'', PStr ''p''),
               (''path'', PPath [(''9'', FORWARD), (''1'', FORWARD), (''2'', FORWARD),
                                 (''3'', FORWARD), (''4'', FORWARD)])]],
     walks = [[(''name'', PStr ''w''),
               (''path'', PPath [(''9'', FORWARD), (''1'', FORWARD), (''4'', FORWARD)])]],
     jumps = [], others = []\<rparr>"

text \<open>
  The graph of the file with the lines \<^verbatim>\<open>S 1 ACGT\<close>, \<^verbatim>\<open>S 2 GGTT\<close> and \<^verbatim>\<open>L 1 + 2 + *\<close>,
  loaded as GFA1 with sequences.
\<close>

definition g_two :: Graph where
  "g_two = \<lparr>version = GFA1, headers = [],
     segments = [[(''name'', PStr ''1''), (''length'', PInt 4), (''seq'', PStr ''ACGT'')],
                 [(''name'', PStr ''2''), (''length'', PInt 4), (''seq'', PStr ''GGTT'')]],
     lines = [[(''start'', PStr ''1''), (''end'', PStr ''2''), (''orientation'', PStr ''+/+''),
               (''ARG5'', PStr ''*'')]],
     containment = [], paths = [], walks = [], jumps = [], others = []\<rparr>"


section \<open>Properties: library lemmas\<close>

lemma map_of_dict_set: "map_of (dict_set d k v) = (map_of d)(k \<mapsto> v)"
  by (induction d k v rule: dict_set.induct) auto

lemma keys_dict_set: "fst ` set (dict_set d k v) = insert k (fst ` set d)"
  by (induction d k v rule: dict_set.induct) auto

lemma val_digits_snoc: "val_digits (s @ [c]) = 10 * val_digits s + digit_val c"
  by (simp add: val_digits_def)

lemma digit_val_char: "d < 10 \<Longrightarrow> digit_val (digit_char d) = d"
proof -
  assume "d < 10"
  then have "d \<in> {0,1,2,3,4,5,6,7,8,9}" by auto
  then show ?thesis by (auto simp: digit_val_def digit_char_def)
qed

lemma val_digits_str_nat: "val_digits (str_nat n) = n"
proof (induction n rule: str_nat.induct)
  case (1 n)
  show ?case
  proof (cases "n < 10")
    case True
    then show ?thesis by (subst str_nat.simps) (simp add: val_digits_def digit_val_char)
  next
    case False
    then show ?thesis using 1 by (subst str_nat.simps) (simp add: val_digits_snoc digit_val_char)
  qed
qed

lemma str_nat_inj: "str_nat a = str_nat b \<Longrightarrow> a = b"
  by (metis val_digits_str_nat)

section \<open>Properties: format classifier\<close>

text \<open>
  Claim C9. \<^verbatim>\<open>assert_format\<close> returns GFA2 if there are Other records, else GFA1.2 if
  there are Jump records, else GFA1.1 if there are Walk records, else GFA1 if there are
  Header or Path records, else rGFA. It stores that style in the container, the result
  does not depend on the style the graph was loaded with, and a graph that holds only
  segments and edges gets rGFA.
\<close>

theorem assert_format_style:
  "fst (assert_format g) =
     (if length (others g) > 0 then GFA2
      else if length (jumps g) > 0 then GFA1_2
      else if length (walks g) > 0 then GFA1_1
      else if length (headers g) > 0 \<or> length (paths g) > 0 then GFA1
      else RGFA)
   \<and> snd (assert_format g) = g\<lparr>version := fst (assert_format g)\<rparr>
   \<and> fst (assert_format (g\<lparr>version := v\<rparr>)) = fst (assert_format g)
   \<and> fst (assert_format \<lparr>version = v, headers = [], segments = ss, lines = ls,
          containment = [], paths = [], walks = [], jumps = [], others = []\<rparr>) = RGFA"
  by (simp add: assert_format_def Let_def)

section \<open>Properties: extra fields of a line\<close>

lemma tag_match_length: "tag_match t \<Longrightarrow> length (take 2 t) = 2"
  by (auto simp: tag_match_def split: list.splits)

lemma tag_key_not_arg: "tag_match t \<Longrightarrow> take 2 t \<noteq> ''ARG'' @ s"
proof
  assume a: "tag_match t" and b: "take 2 t = ''ARG'' @ s"
  have "length (take 2 t) = 2" using a by (rule tag_match_length)
  then show False using b by simp
qed

lemma arg_key_inj: "''ARG'' @ str_nat a = ''ARG'' @ str_nat b \<Longrightarrow> a = b"
  by (simp add: str_nat_inj)

lemma supp_loop_keep:
  "supp_loop L ts m0 n = Inr m \<Longrightarrow> (\<forall>t\<in>set ts. tag_match t \<longrightarrow> take 2 t \<noteq> k)
   \<Longrightarrow> (\<forall>i. k \<noteq> ''ARG'' @ str_nat (n + i)) \<Longrightarrow> map_of m k = map_of m0 k"
proof (induction ts arbitrary: m0 n)
  case Nil
  then show ?case by simp
next
  case (Cons t ts)
  show ?case
  proof (cases "tag_match t")
    case True
    with Cons.prems(1) obtain c v where
      r: "supp_loop L ts (dict_set m0 (take 2 t) v) n = Inr m"
      by (auto split: sum.splits)
    have "map_of m k = map_of (dict_set m0 (take 2 t) v) k"
      using Cons.IH [OF r] Cons.prems(2,3) by simp
    also have "\<dots> = map_of m0 k"
    proof -
      have "k \<noteq> take 2 t" using Cons.prems(2) True by auto
      then show ?thesis by (simp add: map_of_dict_set)
    qed
    finally show ?thesis .
  next
    case False
    with Cons.prems(1) have
      r: "supp_loop L ts (dict_set m0 (''ARG'' @ str_nat n) (PStr t)) (n + 1) = Inr m"
      by simp
    have later: "\<forall>i. k \<noteq> ''ARG'' @ str_nat (n + 1 + i)"
    proof
      fix i
      show "k \<noteq> ''ARG'' @ str_nat (n + 1 + i)"
        using Cons.prems(3) [rule_format, of "1 + i"] by (simp add: add.assoc)
    qed
    have "map_of m k = map_of (dict_set m0 (''ARG'' @ str_nat n) (PStr t)) k"
      using Cons.IH [OF r _ later] Cons.prems(2) by simp
    also have "\<dots> = map_of m0 k"
    proof -
      have "k \<noteq> ''ARG'' @ str_nat n" using Cons.prems(3) [rule_format, of 0] by simp
      then show ?thesis by (simp add: map_of_dict_set)
    qed
    finally show ?thesis .
  qed
qed

lemma supp_loop_arg:
  "supp_loop L ts m0 n = Inr m \<Longrightarrow> j < length ts \<Longrightarrow> \<not> tag_match (ts ! j) \<Longrightarrow>
   map_of m (''ARG'' @ str_nat (n + length (filter (\<lambda>t. \<not> tag_match t) (take j ts))))
     = Some (PStr (ts ! j))"
proof (induction ts arbitrary: m0 n j)
  case Nil
  then show ?case by simp
next
  case (Cons t ts)
  show ?case
  proof (cases j)
    case 0
    with Cons.prems have nt: "\<not> tag_match t" by simp
    with Cons.prems(1) have
      r: "supp_loop L ts (dict_set m0 (''ARG'' @ str_nat n) (PStr t)) (n + 1) = Inr m"
      by simp
    have a: "\<forall>t'\<in>set ts. tag_match t' \<longrightarrow> take 2 t' \<noteq> ''ARG'' @ str_nat n"
      using tag_key_not_arg by blast
    have b: "\<forall>i. ''ARG'' @ str_nat n \<noteq> ''ARG'' @ str_nat (n + 1 + i)"
    proof
      fix i
      show "''ARG'' @ str_nat n \<noteq> ''ARG'' @ str_nat (n + 1 + i)"
        using arg_key_inj [of n "n + 1 + i"] by auto
    qed
    have "map_of m (''ARG'' @ str_nat n)
          = map_of (dict_set m0 (''ARG'' @ str_nat n) (PStr t)) (''ARG'' @ str_nat n)"
      by (rule supp_loop_keep [OF r a b])
    then show ?thesis using 0 by (simp add: map_of_dict_set)
  next
    case (Suc j')
    with Cons.prems have j': "j' < length ts" and nt: "\<not> tag_match (ts ! j')" by simp_all
    show ?thesis
    proof (cases "tag_match t")
      case True
      with Cons.prems(1) obtain v where
        r: "supp_loop L ts (dict_set m0 (take 2 t) v) n = Inr m"
        by (auto split: sum.splits)
      show ?thesis using Cons.IH [OF r j' nt] Suc True by simp
    next
      case False
      with Cons.prems(1) have
        r: "supp_loop L ts (dict_set m0 (''ARG'' @ str_nat n) (PStr t)) (n + 1) = Inr m"
        by simp
      show ?thesis using Cons.IH [OF r j' nt] Suc False by simp
    qed
  qed
qed

lemma supp_loop_tag:
  "supp_loop L ts m0 n = Inr m \<Longrightarrow> j < length ts \<Longrightarrow> tag_match (ts ! j) \<Longrightarrow>
   \<exists>c v. gtype [ts ! j ! 3] = Inr c \<and> apply_cast L c (drop 5 (ts ! j)) = Inr v \<and>
     ((\<forall>k. j < k \<and> k < length ts \<and> tag_match (ts ! k) \<longrightarrow> take 2 (ts ! k) \<noteq> take 2 (ts ! j))
        \<longrightarrow> map_of m (take 2 (ts ! j)) = Some v)"
proof (induction ts arbitrary: m0 n j)
  case Nil
  then show ?case by simp
next
  case (Cons t ts)
  show ?case
  proof (cases j)
    case 0
    with Cons.prems have tm: "tag_match t" by simp
    with Cons.prems(1) obtain c v where
      c: "gtype [t ! 3] = Inr c" and v: "apply_cast L c (drop 5 t) = Inr v" and
      r: "supp_loop L ts (dict_set m0 (take 2 t) v) n = Inr m"
      by (auto split: sum.splits)
    have "map_of m (take 2 t) = Some v"
      if later: "\<forall>k. 0 < k \<and> k < length (t # ts) \<and> tag_match ((t # ts) ! k)
                    \<longrightarrow> take 2 ((t # ts) ! k) \<noteq> take 2 t"
    proof -
      have a: "\<forall>t'\<in>set ts. tag_match t' \<longrightarrow> take 2 t' \<noteq> take 2 t"
      proof (intro ballI impI)
        fix t' assume "t' \<in> set ts" and m': "tag_match t'"
        then obtain k where "k < length ts" and "ts ! k = t'" by (auto simp: in_set_conv_nth)
        then show "take 2 t' \<noteq> take 2 t" using later [rule_format, of "Suc k"] m' by simp
      qed
      have b: "\<forall>i. take 2 t \<noteq> ''ARG'' @ str_nat (n + i)"
        using tag_key_not_arg [OF tm] by blast
      have "map_of m (take 2 t) = map_of (dict_set m0 (take 2 t) v) (take 2 t)"
        by (rule supp_loop_keep [OF r a b])
      then show ?thesis by (simp add: map_of_dict_set)
    qed
    then show ?thesis using 0 c v by auto
  next
    case (Suc j')
    with Cons.prems have j': "j' < length ts" and tm: "tag_match (ts ! j')" by simp_all
    obtain m1 n1 where r: "supp_loop L ts m1 n1 = Inr m"
      using Cons.prems(1) by (auto split: if_splits sum.splits)
    from Cons.IH [OF r j' tm] obtain c v where
      c: "gtype [ts ! j' ! 3] = Inr c" and v: "apply_cast L c (drop 5 (ts ! j')) = Inr v" and
      w: "(\<forall>k. j' < k \<and> k < length ts \<and> tag_match (ts ! k) \<longrightarrow> take 2 (ts ! k) \<noteq> take 2 (ts ! j'))
        \<longrightarrow> map_of m (take 2 (ts ! j')) = Some v"
      by blast
    have "map_of m (take 2 (ts ! j')) = Some v"
      if later: "\<forall>k. Suc j' < k \<and> k < length (t # ts) \<and> tag_match ((t # ts) ! k)
                    \<longrightarrow> take 2 ((t # ts) ! k) \<noteq> take 2 (ts ! j')"
    proof -
      have "\<forall>k. j' < k \<and> k < length ts \<and> tag_match (ts ! k) \<longrightarrow> take 2 (ts ! k) \<noteq> take 2 (ts ! j')"
      proof (intro allI impI)
        fix k assume "j' < k \<and> k < length ts \<and> tag_match (ts ! k)"
        then show "take 2 (ts ! k) \<noteq> take 2 (ts ! j')"
          using later [rule_format, of "Suc k"] by simp
      qed
      with w show ?thesis by blast
    qed
    then show ?thesis using Suc c v by auto
  qed
qed

lemma supplementary_datas_loop:
  "supplementary_datas L datas lc = supp_loop L (drop lc datas) [] lc"
  by (simp add: supplementary_datas_def)

text \<open>
  The extra-fields step on its own. Let \<open>ts\<close> be the tokens from position \<open>lc\<close> on, and
  let the step return the mapping \<open>m\<close>. A token that matches the tag syntax is decoded by
  the tag codec (so the decoder has accepted it) and its value is stored under the
  two-letter key; as in any dict, a later token with the same key replaces it. A token
  that does not match is stored under \<^verbatim>\<open>ARG<n>\<close>, where \<open>n\<close> is \<open>lc\<close> plus the number of
  unmatched tokens before it: matched tokens do not advance the counter.
\<close>

lemma supplementary_datas_tokens:
  assumes "supplementary_datas L datas lc = Inr m"
    and "ts = drop lc datas" and "j < length ts"
  shows "(tag_match (ts ! j) \<longrightarrow>
           (\<exists>c v. gtype [ts ! j ! 3] = Inr c \<and> apply_cast L c (drop 5 (ts ! j)) = Inr v \<and>
              ((\<forall>k. j < k \<and> k < length ts \<and> tag_match (ts ! k)
                    \<longrightarrow> take 2 (ts ! k) \<noteq> take 2 (ts ! j))
               \<longrightarrow> map_of m (take 2 (ts ! j)) = Some v)))
       \<and> (\<not> tag_match (ts ! j) \<longrightarrow>
           map_of m (''ARG'' @ str_nat (lc + length (filter (\<lambda>t. \<not> tag_match t) (take j ts))))
             = Some (PStr (ts ! j)))"
proof -
  have r: "supp_loop L ts [] lc = Inr m"
    using assms(1,2) by (simp add: supplementary_datas_loop)
  show ?thesis
    using supp_loop_tag [OF r assms(3)] supp_loop_arg [OF r assms(3)] by blast
qed


text \<open>The definitions a closed example unfolds.\<close>

lemmas eval_defs = supplementary_datas_def tag_match_def is_upper_def is_lower_def is_digit_def
  gtype_def apply_cast_def py_int_def strip_def py_isspace_def val_digits_def digit_val_def
  digit_char_def str_nat.simps Let_def bindE_def nth_e_def last_e_def getitem_def dict_has_def

lemma supplementary_datas_tokens_example:
  "\<forall>L. supplementary_datas L [''H'', ''VN:Z:1.0'', ''foo'', ''XX:i:5'', ''bar''] 1
        = Inr [(''VN'', PStr ''1.0''), (''ARG1'', PStr ''foo''), (''XX'', PInt 5),
               (''ARG2'', PStr ''bar'')]
     \<and> map_of [(''VN'', PStr ''1.0''), (''ARG1'', PStr ''foo''), (''XX'', PInt 5),
               (''ARG2'', PStr ''bar'')] ''ARG2'' = Some (PStr ''bar'')
     \<and> map_of [(''VN'', PStr ''1.0''), (''ARG1'', PStr ''foo''), (''XX'', PInt 5),
               (''ARG2'', PStr ''bar'')] ''XX'' = Some (PInt 5)"
proof (intro allI conjI)
  fix L
  show e: "supplementary_datas L [''H'', ''VN:Z:1.0'', ''foo'', ''XX:i:5'', ''bar''] 1
        = Inr [(''VN'', PStr ''1.0''), (''ARG1'', PStr ''foo''), (''XX'', PInt 5),
               (''ARG2'', PStr ''bar'')]"
    by (simp add: eval_defs)
  have d: "[''VN:Z:1.0'', ''foo'', ''XX:i:5'', ''bar'']
           = drop 1 [''H'', ''VN:Z:1.0'', ''foo'', ''XX:i:5'', ''bar'']"
    by simp
  show "map_of [(''VN'', PStr ''1.0''), (''ARG1'', PStr ''foo''), (''XX'', PInt 5),
               (''ARG2'', PStr ''bar'')] ''ARG2'' = Some (PStr ''bar'')"
    using supplementary_datas_tokens [OF e d, of 3] by (simp add: eval_defs)
  show "map_of [(''VN'', PStr ''1.0''), (''ARG1'', PStr ''foo''), (''XX'', PInt 5),
               (''ARG2'', PStr ''bar'')] ''XX'' = Some (PInt 5)"
    using supplementary_datas_tokens [OF e d, of 2] by (simp add: eval_defs)
qed

section \<open>Properties: edge lookups\<close>

lemma map_of_dict_merge_other:
  "k \<notin> fst ` set b \<Longrightarrow> map_of (dict_merge a b) k = map_of a k"
proof (induction b arbitrary: a)
  case Nil
  then show ?case by (simp add: dict_merge_def)
next
  case (Cons kv b)
  obtain k' v' where kv: "kv = (k', v')" by (cases kv)
  have "dict_merge a (kv # b) = dict_merge (dict_set a k' v') b"
    by (simp add: dict_merge_def kv)
  moreover have "map_of (dict_merge (dict_set a k' v') b) k = map_of (dict_set a k' v') k"
    using Cons by simp
  moreover have "k \<noteq> k'" using Cons.prems kv by auto
  ultimately show ?case by (simp add: map_of_dict_set)
qed

lemma supp_loop_keys:
  "supp_loop L ts m0 n = Inr m \<Longrightarrow> k \<in> fst ` set m \<Longrightarrow>
   k \<in> fst ` set m0 \<or> length k = 2 \<or> take 3 k = ''ARG''"
proof (induction ts arbitrary: m0 n)
  case Nil
  then show ?case by simp
next
  case (Cons t ts)
  show ?case
  proof (cases "tag_match t")
    case True
    with Cons.prems(1) obtain v where
      r: "supp_loop L ts (dict_set m0 (take 2 t) v) n = Inr m"
      by (auto split: sum.splits)
    from Cons.IH [OF r Cons.prems(2)] show ?thesis
      using tag_match_length [OF True] by (auto simp: keys_dict_set)
  next
    case False
    with Cons.prems(1) have
      r: "supp_loop L ts (dict_set m0 (''ARG'' @ str_nat n) (PStr t)) (n + 1) = Inr m"
      by simp
    from Cons.IH [OF r Cons.prems(2)] show ?thesis
      by (auto simp: keys_dict_set)
  qed
qed

lemma supplementary_datas_no_stop:
  assumes "supplementary_datas L datas lc = Inr m"
  shows "''stop'' \<notin> fst ` set m \<and> ''start'' \<notin> fst ` set m"
proof -
  have r: "supp_loop L (drop lc datas) [] lc = Inr m"
    using assms by (simp add: supplementary_datas_loop)
  show ?thesis using supp_loop_keys [OF r, of "''stop''"] supp_loop_keys [OF r, of "''start''"]
    by auto
qed

lemma line_fields:
  assumes "line L datas st = Inr e"
  shows "map_of e ''stop'' = None \<and> (\<exists>s. map_of e ''start'' = Some (PStr s))"
proof -
  from assms obtain d1 d2 d3 d4 supp where
    s: "supplementary_datas L datas 5 = Inr supp" and
    e: "e = dict_merge (dict_set (dict_set (dict_set [] ''start'' (PStr (filter is_digit d1)))
              ''end'' (PStr (filter is_digit d3))) ''orientation'' (PStr (d2 @ ''/'' @ d4))) supp"
    by (auto simp: line_def bindE_def Let_def split: sum.splits)
  have k: "''stop'' \<notin> fst ` set supp" "''start'' \<notin> fst ` set supp"
    using supplementary_datas_no_stop [OF s] by simp_all
  show ?thesis
    unfolding e by (simp add: map_of_dict_merge_other [OF k(1)] map_of_dict_merge_other [OF k(2)])
qed

lemma edge_touches_parsed:
  assumes "map_of e ''stop'' = None" and "map_of e ''start'' = Some v"
  shows "edge_touches node e = (if v = PStr node then Inr True else Inl KeyError)"
  using assms by (auto simp: edge_touches_def bindE_def getitem_def)

lemma touching_all:
  "\<forall>e\<in>set ls. map_of e ''stop'' = None \<and> map_of e ''start'' = Some (PStr node)
   \<Longrightarrow> touching node ls i = Inr (zip [i..<i + length ls] ls)"
proof (induction ls arbitrary: i)
  case Nil
  then show ?case by simp
next
  case (Cons e ls)
  have "touching node ls (i + 1) = Inr (zip [i + 1..<i + 1 + length ls] ls)"
    using Cons by simp
  moreover have "edge_touches node e = Inr True"
    using Cons.prems by (simp add: edge_touches_parsed)
  ultimately show ?case by (simp add: upt_rec)
qed

lemma touching_some:
  "\<forall>e\<in>set ls. map_of e ''stop'' = None \<and> (\<exists>s. map_of e ''start'' = Some (PStr s))
   \<Longrightarrow> \<exists>e\<in>set ls. map_of e ''start'' \<noteq> Some (PStr node)
   \<Longrightarrow> touching node ls i = Inl KeyError"
proof (induction ls arbitrary: i)
  case Nil
  then show ?case by simp
next
  case (Cons e ls)
  obtain s where s: "map_of e ''stop'' = None" "map_of e ''start'' = Some (PStr s)"
    using Cons.prems(1) by auto
  show ?case
  proof (cases "s = node")
    case False
    then show ?thesis using s by (simp add: edge_touches_parsed)
  next
    case True
    then have "\<exists>e\<in>set ls. map_of e ''start'' \<noteq> Some (PStr node)"
      using Cons.prems(2) s by auto
    then have "touching node ls (i + 1) = Inl KeyError"
      using Cons by simp
    then show ?thesis using s True by (simp add: edge_touches_parsed)
  qed
qed

text \<open>
  Claim C5. In a graph whose edges were all produced by the L-line parser (which stores
  the second endpoint under \<^verbatim>\<open>end\<close> and never creates a key \<^verbatim>\<open>stop\<close>), \<^verbatim>\<open>get_edges\<close>
  and \<^verbatim>\<open>get_edges_positions\<close> raise KeyError as soon as one edge has a \<^verbatim>\<open>start\<close> other
  than the queried name; they return (all edges, all positions) exactly when every edge
  starts at the queried name.
\<close>

theorem get_edges_parsed_lines:
  assumes "\<forall>e\<in>set (lines g). \<exists>L datas st. line L datas st = Inr e"
  shows "if \<forall>e\<in>set (lines g). map_of e ''start'' = Some (PStr node)
         then get_edges g node = Inr (lines g)
              \<and> get_edges_positions g node = Inr [0..<length (lines g)]
         else get_edges g node = Inl KeyError
              \<and> get_edges_positions g node = Inl KeyError"
proof -
  have p: "\<forall>e\<in>set (lines g). map_of e ''stop'' = None \<and> (\<exists>s. map_of e ''start'' = Some (PStr s))"
    using assms line_fields by blast
  show ?thesis
  proof (cases "\<forall>e\<in>set (lines g). map_of e ''start'' = Some (PStr node)")
    case True
    then have "touching node (lines g) 0 = Inr (zip [0..<0 + length (lines g)] (lines g))"
      using p by (intro touching_all) auto
    then show ?thesis using True
      by (simp add: get_edges_def get_edges_positions_def bindE_def)
  next
    case False
    then have "touching node (lines g) 0 = Inl KeyError"
      using p by (intro touching_some) auto
    then show ?thesis using False
      by (simp add: get_edges_def get_edges_positions_def bindE_def)
  qed
qed


theorem get_edges_parsed_lines_witness:
  "\<forall>L. line L [''L'', ''1'', ''+'', ''2'', ''+'', ''*''] GFA1
         = Inr [(''start'', PStr ''1''), (''end'', PStr ''2''), (''orientation'', PStr ''+/+''),
                (''ARG5'', PStr ''*'')]
     \<and> get_edges \<lparr>version = GFA1, headers = [], segments = [],
          lines = [[(''start'', PStr ''1''), (''end'', PStr ''2''),
                    (''orientation'', PStr ''+/+''), (''ARG5'', PStr ''*'')]],
          containment = [], paths = [], walks = [], jumps = [], others = []\<rparr> ''2''
         = Inl KeyError
     \<and> get_edges_positions \<lparr>version = GFA1, headers = [], segments = [],
          lines = [[(''start'', PStr ''1''), (''end'', PStr ''2''),
                    (''orientation'', PStr ''+/+''), (''ARG5'', PStr ''*'')]],
          containment = [], paths = [], walks = [], jumps = [], others = []\<rparr> ''2''
         = Inl KeyError
     \<and> get_edges_positions \<lparr>version = GFA1, headers = [], segments = [],
          lines = [[(''start'', PStr ''1''), (''end'', PStr ''2''),
                    (''orientation'', PStr ''+/+''), (''ARG5'', PStr ''*'')]],
          containment = [], paths = [], walks = [], jumps = [], others = []\<rparr> ''1''
         = Inr [0]"
proof (intro allI conjI)
  fix L
  let ?e = "[(''start'', PStr ''1''), (''end'', PStr ''2''), (''orientation'', PStr ''+/+''),
             (''ARG5'', PStr ''*'')]"
  let ?g = "\<lparr>version = GFA1, headers = [], segments = [], lines = [?e],
             containment = [], paths = [], walks = [], jumps = [], others = []\<rparr>"
  show e: "line L [''L'', ''1'', ''+'', ''2'', ''+'', ''*''] GFA1 = Inr ?e"
    by (simp add: line_def dict_merge_def eval_defs)
  have parsed: "\<forall>e\<in>set (lines ?g). \<exists>L datas st. line L datas st = Inr e"
    using e by auto
  show "get_edges ?g ''2'' = Inl KeyError"
    using get_edges_parsed_lines [OF parsed, of "''2''"] by simp
  show "get_edges_positions ?g ''2'' = Inl KeyError"
    using get_edges_parsed_lines [OF parsed, of "''2''"] by simp
  show "get_edges_positions ?g ''1'' = Inr [0]"
    using get_edges_parsed_lines [OF parsed, of "''1''"] by simp
qed

section \<open>Properties: paths under a merge\<close>

lemma merge_scan_fst_none:
  "l \<notin> fst ` set p \<Longrightarrow> fst (merge_scan l r p i se) = fst se"
  by (induction p arbitrary: i se) auto

lemma merge_scan_snd_none:
  "r \<notin> fst ` set p \<or> l = r \<Longrightarrow> snd (merge_scan l r p i se) = snd se"
  by (induction p arbitrary: i se) auto

lemma merge_scan_fst_last:
  "k < length p \<Longrightarrow> fst (p ! k) = l \<Longrightarrow> (\<forall>j. k < j \<and> j < length p \<longrightarrow> fst (p ! j) \<noteq> l)
   \<Longrightarrow> fst (merge_scan l r p i se) = i + k"
proof (induction p arbitrary: i se k)
  case Nil
  then show ?case by simp
next
  case (Cons step p)
  show ?case
  proof (cases k)
    case 0
    have "l \<notin> fst ` set p"
    proof
      assume "l \<in> fst ` set p"
      then obtain j where "j < length p" and "fst (p ! j) = l"
        by (auto simp: in_set_conv_nth)
      then show False using Cons.prems(3) [rule_format, of "Suc j"] 0 by simp
    qed
    then show ?thesis using 0 Cons.prems(2) by (simp add: merge_scan_fst_none)
  next
    case (Suc k')
    have "\<forall>j. k' < j \<and> j < length p \<longrightarrow> fst (p ! j) \<noteq> l"
    proof (intro allI impI)
      fix j assume "k' < j \<and> j < length p"
      then show "fst (p ! j) \<noteq> l" using Cons.prems(3) [rule_format, of "Suc j"] Suc by simp
    qed
    then show ?thesis using Cons.IH [of k' "i + 1"] Cons.prems(1,2) Suc by simp
  qed
qed

lemma merge_scan_snd_last:
  "l \<noteq> r \<Longrightarrow> k < length p \<Longrightarrow> fst (p ! k) = r
   \<Longrightarrow> (\<forall>j. k < j \<and> j < length p \<longrightarrow> fst (p ! j) \<noteq> r)
   \<Longrightarrow> snd (merge_scan l r p i se) = i + k"
proof (induction p arbitrary: i se k)
  case Nil
  then show ?case by simp
next
  case (Cons step p)
  show ?case
  proof (cases k)
    case 0
    have "r \<notin> fst ` set p"
    proof
      assume "r \<in> fst ` set p"
      then obtain j where "j < length p" and "fst (p ! j) = r"
        by (auto simp: in_set_conv_nth)
      then show False using Cons.prems(4) [rule_format, of "Suc j"] 0 by simp
    qed
    then show ?thesis using 0 Cons.prems(1,3) by (simp add: merge_scan_snd_none)
  next
    case (Suc k')
    have "\<forall>j. k' < j \<and> j < length p \<longrightarrow> fst (p ! j) \<noteq> r"
    proof (intro allI impI)
      fix j assume "k' < j \<and> j < length p"
      then show "fst (p ! j) \<noteq> r" using Cons.prems(4) [rule_format, of "Suc j"] Suc by simp
    qed
    then show ?thesis using Cons.IH [of k' "i + 1"] Cons.prems(1,2,3) Suc by simp
  qed
qed

lemma merge_path_one_missing:
  "l \<notin> fst ` set p \<or> r \<notin> fst ` set p \<Longrightarrow> merge_path l r p = p"
  by (auto simp: merge_path_def Let_def merge_scan_fst_none merge_scan_snd_none)

lemma merge_path_both:
  assumes "l \<noteq> r"
    and "s < length p" "fst (p ! s) = l" "\<forall>j. s < j \<and> j < length p \<longrightarrow> fst (p ! j) \<noteq> l"
    and "e < length p" "fst (p ! e) = r" "\<forall>j. e < j \<and> j < length p \<longrightarrow> fst (p ! j) \<noteq> r"
  shows "merge_path l r p = (if 0 < s \<and> 0 < e then take (min s e) p @ drop (max s e) p else p)"
proof -
  have "fst (merge_scan l r p 0 (0, 0)) = s"
    using merge_scan_fst_last [OF assms(2,3,4), of r 0 "(0, 0)"] by simp
  moreover have "snd (merge_scan l r p 0 (0, 0)) = e"
    using merge_scan_snd_last [OF assms(1,5,6,7), of 0 "(0, 0)"] by simp
  ultimately show ?thesis by (simp add: merge_path_def Let_def)
qed


lemma dict_set_same: "map_of d k = Some v \<Longrightarrow> dict_set d k v = d"
  by (induction d k v rule: dict_set.induct) (auto split: if_splits)

lemma mapE_nth:
  "mapE f xs = Inr ys \<Longrightarrow> length ys = length xs \<and> (\<forall>i<length xs. f (xs ! i) = Inr (ys ! i))"
proof (induction xs arbitrary: ys)
  case Nil
  then show ?case by simp
next
  case (Cons x xs)
  from Cons.prems obtain y ys' where y: "f x = Inr y" and r: "mapE f xs = Inr ys'"
    and ys: "ys = y # ys'"
    by (auto split: sum.splits)
  show ?case using Cons.IH [OF r] y ys by (auto simp: nth_Cons split: nat.splits)
qed

lemma find_segment_name:
  "find_segment segs node i0 = Inr i \<Longrightarrow>
   i0 \<le> i \<and> i - i0 < length segs \<and> map_of (segs ! (i - i0)) ''name'' = Some (PStr node)"
proof (induction segs arbitrary: i0)
  case Nil
  then show ?case by simp
next
  case (Cons seg segs)
  from Cons.prems obtain v where v: "map_of seg ''name'' = Some v"
    by (auto simp: getitem_def split: option.splits)
  show ?case
  proof (cases "v = PStr node")
    case True
    then show ?thesis using Cons.prems v by (simp add: getitem_def)
  next
    case False
    then have r: "find_segment segs node (i0 + 1) = Inr i"
      using Cons.prems v by (simp add: getitem_def)
    from Cons.IH [OF r] have a: "i0 + 1 \<le> i" and b: "i - (i0 + 1) < length segs"
      and c: "map_of (segs ! (i - (i0 + 1))) ''name'' = Some (PStr node)" by auto
    have "i - i0 = Suc (i - (i0 + 1))" using a by simp
    then show ?thesis using a b c by simp
  qed
qed

lemma update_keeps_name:
  "k \<noteq> ''name'' \<Longrightarrow>
   map_of ((segs[lp := dict_set (segs ! lp) k v]) ! j) ''name'' = map_of (segs ! j) ''name''"
proof (cases "lp < length segs")
  case True
  assume "k \<noteq> ''name''"
  then show ?thesis using True by (cases "j = lp") (simp_all add: map_of_dict_set)
next
  case False
  then show ?thesis by (simp add: list_update_beyond)
qed

lemma merge_length_names:
  assumes "merge_length L segs pos = Inr segs1"
  shows "map_of (segs1 ! j) ''name'' = map_of (segs ! j) ''name''"
proof -
  from assms obtain lp v where e: "segs1 = segs[lp := dict_set (segs ! lp) ''length'' v]"
    by (auto simp: merge_length_def bindE_def split: sum.splits)
  show ?thesis unfolding e by (rule update_keeps_name) simp
qed

lemma merge_seq_names:
  assumes "merge_seq segs pos = Inr segs1"
  shows "map_of (segs1 ! j) ''name'' = map_of (segs ! j) ''name''"
proof -
  from assms obtain lp v where
    e: "segs1 = segs \<or> segs1 = segs[lp := dict_set (segs ! lp) ''seq'' v]"
    by (auto simp: merge_seq_def bindE_def split: sum.splits if_splits)
  then show ?thesis
  proof
    assume "segs1 = segs"
    then show ?thesis by simp
  next
    assume e': "segs1 = segs[lp := dict_set (segs ! lp) ''seq'' v]"
    show ?thesis unfolding e' by (rule update_keeps_name) simp
  qed
qed

lemma name_of_Some:
  "name_of seg = Inr n \<Longrightarrow> map_of seg ''name'' = Some (PStr n)"
  by (auto simp: name_of_def getitem_def split: option.splits pyval.splits)

lemma merge_records_ok:
  "merge_records l r rs = (Inr u, rs') \<Longrightarrow>
   length rs' = length rs \<and>
   (\<forall>i<length rs. \<exists>p. map_of (rs ! i) ''path'' = Some (PPath p) \<and>
        rs' ! i = dict_set (rs ! i) ''path'' (PPath (merge_path l r p)))"
proof (induction rs arbitrary: rs')
  case Nil
  then show ?case by simp
next
  case (Cons ipath rs)
  from Cons.prems obtain x xs where x: "merge_record l r ipath = Inr x"
    and xs: "merge_records l r rs = (Inr u, xs)" and e: "rs' = x # xs"
    by (auto split: sum.splits prod.splits)
  from x obtain p where p: "map_of ipath ''path'' = Some (PPath p)"
    and px: "x = dict_set ipath ''path'' (PPath (merge_path l r p))"
    by (auto simp: merge_record_def getitem_def split: option.splits pyval.splits)
  show ?case using Cons.IH [OF xs] p px e by (auto simp: nth_Cons split: nat.splits)
qed


lemma merge_paths_ok:
  assumes "merge_paths l r g = (Inr u, g')"
  shows "merge_records l r (paths g) = (Inr (), paths g')
       \<and> merge_records l r (walks g) = (Inr (), walks g')"
  using assms by (auto simp: merge_paths_def split: prod.splits sum.splits)

lemma merge_segments_success:
  assumes "merge_segments L g segs = (Inr nm, g')"
  shows "\<exists>keys. mapE py_int segs = Inr keys
        \<and> map snd (sort_key fst (zip keys segs)) \<noteq> []
        \<and> nm = hd (map snd (sort_key fst (zip keys segs)))
        \<and> merge_records nm (last (map snd (sort_key fst (zip keys segs)))) (paths g)
            = (Inr (), paths g')
        \<and> merge_records nm (last (map snd (sort_key fst (zip keys segs)))) (walks g)
            = (Inr (), walks g')"
proof -
  from assms obtain pos lp rp segs1 segs2 rname edges lname ls dels g2 where
    pos: "merge_positions g segs = Inr pos" and
    lp: "nth_e pos 0 = Inr lp" and rp: "last_e pos = Inr rp" and
    s1: "merge_length L (segments g) pos = Inr segs1" and
    s2: "merge_seq segs1 pos = Inr segs2" and
    rn: "name_of (segs2 ! rp) = Inr rname" and
    ln: "name_of (segs2 ! lp) = Inr lname" and
    mp: "merge_paths lname rname (g\<lparr>segments := segs2, lines := ls\<rparr>) = (Inr (), g2)" and
    nm: "nm = lname" and
    g': "g' = g2\<lparr>segments := drop_positions (butlast (tl pos)) (segments g2),
                  lines := drop_positions (concat dels) (lines g2)\<rparr>"
    unfolding merge_segments_def
    by (auto split: sum.splits prod.splits)
  from pos obtain keys where keys: "mapE py_int segs = Inr keys" and
    fs0: "mapE (get_segment_position g) (map snd (sort_key fst (zip keys segs))) = Inr pos"
    by (auto simp: merge_positions_def bindE_def split: sum.splits)
  define sorted where "sorted = map snd (sort_key fst (zip keys segs))"
  have fs: "mapE (get_segment_position g) sorted = Inr pos"
    using fs0 by (simp only: sorted_def)
  have len: "length pos = length sorted"
    and each: "\<forall>i<length sorted. get_segment_position g (sorted ! i) = Inr (pos ! i)"
    using mapE_nth [OF fs] by auto
  have ne: "pos \<noteq> []" using lp by (auto simp: nth_e_def split: if_splits)
  then have sne: "sorted \<noteq> []" using len by (metis length_0_conv)
  have lp0: "lp = pos ! 0" using lp by (auto simp: nth_e_def split: if_splits)
  have rpl: "rp = pos ! (length pos - 1)"
    using rp ne by (auto simp: last_e_def last_conv_nth split: if_splits)
  have names: "map_of (segs2 ! j) ''name'' = map_of (segments g ! j) ''name''" for j
    using merge_seq_names [OF s2] merge_length_names [OF s1] by simp
  have "get_segment_position g (sorted ! 0) = Inr lp"
    using each sne lp0 by auto
  then have "map_of (segments g ! lp) ''name'' = Some (PStr (sorted ! 0))"
    using find_segment_name [of "segments g" "sorted ! 0" 0 lp]
    by (simp add: get_segment_position_def)
  then have l: "lname = hd sorted"
    using name_of_Some [OF ln] names sne by (simp add: hd_conv_nth)
  have "get_segment_position g (sorted ! (length pos - 1)) = Inr rp"
    using each sne rpl len by auto
  then have "map_of (segments g ! rp) ''name'' = Some (PStr (sorted ! (length pos - 1)))"
    using find_segment_name [of "segments g" "sorted ! (length pos - 1)" 0 rp]
    by (simp add: get_segment_position_def)
  then have r: "rname = last sorted"
    using name_of_Some [OF rn] names sne len by (simp add: last_conv_nth)
  have "merge_records lname rname (paths g) = (Inr (), paths g')
      \<and> merge_records lname rname (walks g) = (Inr (), walks g')"
    using merge_paths_ok [OF mp] g' by simp
  then have "mapE py_int segs = Inr keys \<and> sorted \<noteq> [] \<and> nm = hd sorted
      \<and> merge_records nm (last sorted) (paths g) = (Inr (), paths g')
      \<and> merge_records nm (last sorted) (walks g) = (Inr (), walks g')"
    using keys sne l r nm by simp
  then show ?thesis unfolding sorted_def by blast
qed


lemma merge_records_append:
  "merge_records l r xs = (Inr (), xs') \<Longrightarrow> merge_records l r ys = (Inr (), ys')
   \<Longrightarrow> merge_records l r (xs @ ys) = (Inr (), xs' @ ys')"
proof (induction xs arbitrary: xs')
  case Nil
  then show ?case by simp
next
  case (Cons x xs)
  from Cons.prems(1) obtain y zs where y: "merge_record l r x = Inr y"
    and zs: "merge_records l r xs = (Inr (), zs)" and e: "xs' = y # zs"
    by (auto split: sum.splits prod.splits)
  show ?case using Cons.IH [OF zs Cons.prems(2)] y e by simp
qed

text \<open>
  What the path edit of a merge that returns normally computes. The call returns the
  left-most name \<open>nm\<close> (the operand with the lowest integer value), and \<open>r\<close> is the
  right-most name (the highest). Every path or walk record keeps its place. A record in
  whose path at most one of the two names occurs is left unchanged. In a record where
  both occur, the last occurrence of \<open>nm\<close> at position \<open>s\<close> and the last occurrence of
  \<open>r\<close> at position \<open>e\<close>, both after the first step, the path loses the steps from
  position \<open>min s e\<close> up to, but not including, position \<open>max s e\<close>.
\<close>

lemma merge_segments_path_cut:
  assumes "merge_segments L g segs = (Inr nm, g')"
    and "mapE py_int segs = Inr keys"
    and "r = last (map snd (sort_key fst (zip keys segs)))"
    and "i < length (get_path_list g)"
  shows "nm = hd (map snd (sort_key fst (zip keys segs)))
     \<and> length (get_path_list g') = length (get_path_list g)
     \<and> (\<exists>p. map_of (get_path_list g ! i) ''path'' = Some (PPath p) \<and>
          (nm \<notin> fst ` set p \<or> r \<notin> fst ` set p
             \<longrightarrow> get_path_list g' ! i = get_path_list g ! i) \<and>
          (\<forall>s e. nm \<noteq> r
                 \<and> 0 < s \<and> s < length p \<and> fst (p ! s) = nm
                 \<and> (\<forall>j. s < j \<and> j < length p \<longrightarrow> fst (p ! j) \<noteq> nm)
                 \<and> 0 < e \<and> e < length p \<and> fst (p ! e) = r
                 \<and> (\<forall>j. e < j \<and> j < length p \<longrightarrow> fst (p ! j) \<noteq> r)
             \<longrightarrow> get_path_list g' ! i
                 = dict_set (get_path_list g ! i) ''path''
                     (PPath (take (min s e) p @ drop (max s e) p))))"
proof -
  from merge_segments_success [OF assms(1)] assms(2,3) have
    nm: "nm = hd (map snd (sort_key fst (zip keys segs)))" and
    ps: "merge_records nm r (paths g) = (Inr (), paths g')" and
    ws: "merge_records nm r (walks g) = (Inr (), walks g')"
    by auto
  have all: "merge_records nm r (get_path_list g) = (Inr (), get_path_list g')"
    unfolding get_path_list_def by (rule merge_records_append [OF ps ws])
  from merge_records_ok [OF all] assms(4) obtain p where
    len: "length (get_path_list g') = length (get_path_list g)" and
    p: "map_of (get_path_list g ! i) ''path'' = Some (PPath p)" and
    upd: "get_path_list g' ! i = dict_set (get_path_list g ! i) ''path'' (PPath (merge_path nm r p))"
    by blast
  have a: "get_path_list g' ! i = get_path_list g ! i"
    if "nm \<notin> fst ` set p \<or> r \<notin> fst ` set p"
    using upd p that by (simp add: merge_path_one_missing dict_set_same)
  have b: "get_path_list g' ! i
             = dict_set (get_path_list g ! i) ''path'' (PPath (take (min s e) p @ drop (max s e) p))"
    if "nm \<noteq> r \<and> 0 < s \<and> s < length p \<and> fst (p ! s) = nm
        \<and> (\<forall>j. s < j \<and> j < length p \<longrightarrow> fst (p ! j) \<noteq> nm)
        \<and> 0 < e \<and> e < length p \<and> fst (p ! e) = r
        \<and> (\<forall>j. e < j \<and> j < length p \<longrightarrow> fst (p ! j) \<noteq> r)" for s e
  proof -
    have "merge_path nm r p = take (min s e) p @ drop (max s e) p"
      using merge_path_both [of nm r s p e] that by simp
    then show ?thesis using upd by simp
  qed
  show ?thesis using nm len p a b by blast
qed

text \<open>The definitions a closed example of a merge unfolds.\<close>

lemmas merge_defs = merge_segments_def merge_positions_def merge_length_def merge_seq_def
  name_of_def merge_paths_def merge_record_def merge_path_def
  get_segment_position_def get_edges_positions_def drop_positions_def enumerate_eq_zip

text \<open>
  Claim C2 (at failing inputs). The graph \<open>g_merge\<close> holds the path 9, 1, 2, 3, 4. The
  merge of the segments 1, 2 and 3 returns the name 1 and gives segment 1 the sequence
  ACGT; segment 3 stays in the graph with its old sequence T. The path becomes 9, 3, 4:
  the step through the merged segment 1 is removed with the interior step, and the step
  through the absorbed segment 3 is kept; both endpoints are never kept. On the reversed
  path 9, 3, 2, 1, 4 the same edit keeps the step through 1. A path that starts with the
  left-most segment is not edited at all, since position 0 counts as "not found".
\<close>

theorem merge_path_drops_merged_segment:
  "(\<forall>L. merge_segments L g_merge [''3'', ''1'', ''2'']
        = (Inr ''1'',
           g_merge\<lparr>segments := [[(''name'', PStr ''1''), (''length'', PInt 4),
                                  (''seq'', PStr ''ACGT'')],
                                 [(''name'', PStr ''3''), (''length'', PInt 1),
                                  (''seq'', PStr ''T'')]],
                    paths := [[(''name'', PStr ''p''),
                               (''path'', PPath [(''9'', FORWARD), (''3'', FORWARD),
                                                 (''4'', FORWARD)])]]\<rparr>))
   \<and> merge_path ''1'' ''3'' [(''9'', FORWARD), (''1'', FORWARD), (''2'', FORWARD),
                              (''3'', FORWARD), (''4'', FORWARD)]
       = [(''9'', FORWARD), (''3'', FORWARD), (''4'', FORWARD)]
   \<and> merge_path ''1'' ''3'' [(''9'', REVERSE), (''3'', REVERSE), (''2'', REVERSE),
                              (''1'', REVERSE), (''4'', REVERSE)]
       = [(''9'', REVERSE), (''1'', REVERSE), (''4'', REVERSE)]
   \<and> merge_path ''1'' ''3'' [(''1'', FORWARD), (''2'', FORWARD), (''3'', FORWARD)]
       = [(''1'', FORWARD), (''2'', FORWARD), (''3'', FORWARD)]"
  by (simp add: g_merge_def merge_defs eval_defs)

section \<open>Properties: splitting a segment\<close>

lemma first_fragment_nonempty: "first_fragment d poss = Inr seg \<Longrightarrow> poss \<noteq> []"
  by (auto simp: first_fragment_def bindE_def nth_e_def split: if_splits sum.splits)

lemma split_new_edge_last:
  "length names \<le> i + 1 \<Longrightarrow> \<exists>e. split_new_edge fresh names i orient = Inl e"
  by (auto simp: split_new_edge_def bindE_def nth_e_def split: sum.splits)

lemma split_loop_last:
  "todo \<noteq> [] \<Longrightarrow> length names \<le> fst (last todo) + 1 \<Longrightarrow>
   \<exists>e g'. split_loop fresh sn names orient sq positions todo g = (Inl e, g')"
proof (induction todo arbitrary: g)
  case Nil
  then show ?case by simp
next
  case (Cons ip todo)
  obtain i pos1 where ip: "ip = (i, pos1)" by (cases ip)
  show ?case
  proof (cases "todo = []")
    case True
    then have "length names \<le> i + 1" using Cons.prems(2) ip by simp
    then obtain e where "split_new_edge fresh names i orient = Inl e"
      using split_new_edge_last by blast
    then show ?thesis unfolding ip by (auto split: sum.splits)
  next
    case False
    then have l: "length names \<le> fst (last todo) + 1" using Cons.prems(2) by simp
    have ih: "\<exists>e g'. split_loop fresh sn names orient sq positions todo g2 = (Inl e, g')" for g2
      using Cons.IH [OF False l] by blast
    show ?thesis unfolding ip using ih by (auto split: sum.splits prod.splits)
  qed
qed

lemma last_enumerate: "xs \<noteq> [] \<Longrightarrow> fst (last (enumerate n xs)) = n + (length xs - 1)"
  by (simp add: last_conv_nth enumerate_eq_zip)

text \<open>
  Whatever object the constructors \<^verbatim>\<open>Segment()\<close> and \<^verbatim>\<open>Line()\<close> return, no call of
  \<^verbatim>\<open>split_segments\<close> returns normally: with as many names as positions, the last
  iteration reads \<^verbatim>\<open>future_segment_name[i+1]\<close> one past the end of the names.
\<close>

lemma split_segments_on_raises:
  "\<exists>e g'. split_segments_on fresh g sn names poss = (Inl e, g')"
proof (cases "\<exists>e g'. split_segments_on fresh g sn names poss = (Inl e, g')")
  case True
  then show ?thesis .
next
  case False
  then obtain p sq edges orient ls seg n where
    len: "length (names_of names) = length (pos_of poss)" and
    ff: "first_fragment (segments g ! p) (pos_of poss) = Inr seg" and
    loop: "split_segments_on fresh g sn names poss
           = split_loop fresh sn (names_of names) orient sq (pos_of poss @ [n])
               (enumerate 0 (pos_of poss)) (g\<lparr>lines := ls, segments := (segments g)[p := seg]\<rparr>)"
    unfolding split_segments_on_def
    by (auto split: sum.splits prod.splits if_splits)
  have ne: "pos_of poss \<noteq> []" using ff by (rule first_fragment_nonempty)
  then have a: "enumerate 0 (pos_of poss) \<noteq> []" by (simp add: enumerate_eq_zip)
  have b: "length (names_of names) \<le> fst (last (enumerate 0 (pos_of poss))) + 1"
    using ne len by (simp add: last_enumerate)
  from split_loop_last [OF a b] show ?thesis unfolding loop by blast
qed


text \<open>The definitions a closed example of a split unfolds.\<close>

lemmas split_defs = split_segments_def split_segments_on_def new_object_def attr_datas_def
  sequence_of_def orient_of_def first_fragment_def split_new_segment_def split_new_edge_def
  new_steps_def split_path_def split_record_def split_paths_def Orientation_of_def
  get_segment_position_def get_edges_positions_def edge_touches_def enumerate_eq_zip
  slice_def slice_to_def clamp_index_def repeat_def

text \<open>
  Claim C4 (the scenario of the spec). On the graph with the segments 1 (ACGT) and 2 (GGTT)
  and the edge from 1 to 2, \<^verbatim>\<open>split_segments("1", ["10"], [2])\<close> does not succeed: it
  raises AttributeError at \<^verbatim>\<open>new_seg.datas\<close>, having redirected the edge to start at 10
  and cut the sequence of segment 1 to AC; no segment 10 and no edge is added. If a new
  object did hold an empty \<^verbatim>\<open>datas\<close> dict, the call would add segment 10 (GT, length 2)
  and then raise IndexError at \<^verbatim>\<open>future_segment_name[i+1]\<close>, again without a new edge.
\<close>

theorem split_scenario_raises:
  "split_segments g_two ''1'' (NameList [''10'']) (PosList [2])
     = (Inl AttributeError,
        g_two\<lparr>lines := [[(''start'', PStr ''10''), (''end'', PStr ''2''),
                           (''orientation'', PStr ''+/+''), (''ARG5'', PStr ''*'')]],
               segments := [[(''name'', PStr ''1''), (''length'', PInt 4), (''seq'', PStr ''AC'')],
                            [(''name'', PStr ''2''), (''length'', PInt 4), (''seq'', PStr ''GGTT'')]]\<rparr>)
   \<and> split_segments_on (Some []) g_two ''1'' (NameList [''10'']) (PosList [2])
     = (Inl IndexError,
        g_two\<lparr>lines := [[(''start'', PStr ''10''), (''end'', PStr ''2''),
                           (''orientation'', PStr ''+/+''), (''ARG5'', PStr ''*'')]],
               segments := [[(''name'', PStr ''1''), (''length'', PInt 4), (''seq'', PStr ''AC'')],
                            [(''name'', PStr ''2''), (''length'', PInt 4), (''seq'', PStr ''GGTT'')],
                            [(''name'', PStr ''10''), (''seq'', PStr ''GT''), (''length'', PInt 2)]]\<rparr>)"
  by (simp add: g_two_def split_defs eval_defs)

text \<open>
  Claim C6 (at the failing input). Segment 1 holds the sequence ACGT and the length 4
  before the call \<^verbatim>\<open>split_segments("1", ["10"], [2])\<close>; the call leaves it with the
  sequence AC and the length 4, since the edit of the first fragment assigns \<^verbatim>\<open>seq\<close>
  only.
\<close>

theorem split_first_fragment_length:
  "segments (snd (split_segments g_two ''1'' (NameList [''10'']) (PosList [2]))) ! 0
     = [(''name'', PStr ''1''), (''length'', PInt 4), (''seq'', PStr ''AC'')]
   \<and> segments g_two ! 0
     = [(''name'', PStr ''1''), (''length'', PInt 4), (''seq'', PStr ''ACGT'')]"
  by (simp add: g_two_def split_defs eval_defs)

section \<open>Properties: failing edits\<close>

lemma mapE_fails:
  "\<exists>x\<in>set xs. \<exists>e. f x = Inl e \<Longrightarrow> \<exists>e. mapE f xs = Inl e"
proof (induction xs)
  case Nil
  then show ?case by simp
next
  case (Cons x xs)
  show ?case
  proof (cases "f x")
    case (Inl e)
    then show ?thesis by simp
  next
    case (Inr y)
    then have "\<exists>x\<in>set xs. \<exists>e. f x = Inl e" using Cons.prems by auto
    then obtain e where "mapE f xs = Inl e" using Cons.IH by blast
    then show ?thesis using Inr by simp
  qed
qed

lemma mapE_length: "mapE f xs = Inr ys \<Longrightarrow> length ys = length xs"
  using mapE_nth by blast

lemma merge_positions_fails:
  assumes "\<exists>s\<in>set segs. \<exists>e. py_int s = Inl e \<or> get_segment_position g s = Inl e"
  shows "\<exists>e. merge_positions g segs = Inl e"
proof (cases "mapE py_int segs")
  case (Inl e)
  then show ?thesis by (simp add: merge_positions_def bindE_def)
next
  case (Inr keys)
  have len: "length keys = length segs" using Inr by (rule mapE_length)
  have ok: "\<forall>s\<in>set segs. \<exists>k. py_int s = Inr k"
  proof
    fix s assume "s \<in> set segs"
    then obtain i where "i < length segs" and "segs ! i = s" by (auto simp: in_set_conv_nth)
    then show "\<exists>k. py_int s = Inr k" using mapE_nth [OF Inr] by auto
  qed
  then obtain s e where s: "s \<in> set segs" and e: "get_segment_position g s = Inl e"
    using assms by force
  have "set (map snd (sort_key fst (zip keys segs))) = snd ` set (zip keys segs)"
    by (simp only: set_map set_sort)
  also have "\<dots> = set (map snd (zip keys segs))"
    by (simp only: set_map)
  also have "\<dots> = set segs"
    using len by (simp only: map_snd_zip)
  finally have "set (map snd (sort_key fst (zip keys segs))) = set segs" .
  then have "\<exists>x\<in>set (map snd (sort_key fst (zip keys segs))). \<exists>e. get_segment_position g x = Inl e"
    using s e by blast
  then have "\<exists>e. mapE (get_segment_position g) (map snd (sort_key fst (zip keys segs))) = Inl e"
    by (rule mapE_fails)
  then obtain e' where "mapE (get_segment_position g) (map snd (sort_key fst (zip keys segs))) = Inl e'"
    by (rule exE)
  then show ?thesis using Inr by (simp add: merge_positions_def bindE_def)
qed

text \<open>
  Claim C3, as amended. A call that raises before its first assignment leaves the graph
  as it was: \<^verbatim>\<open>split_segments\<close> when the segment name is not found or when the names and
  the positions differ in number; \<^verbatim>\<open>merge_segments\<close> when no name is given, when a name
  is not a decimal integer or when a name is not found. (Nothing is staged: an exception
  raised later leaves the assignments made so far in place, see the counterexample.)
\<close>

theorem editor_early_failures:
  "(\<forall>e. get_segment_position g sn = Inl e \<longrightarrow> split_segments g sn names poss = (Inl e, g))
   \<and> (length (names_of names) \<noteq> length (pos_of poss)
        \<longrightarrow> (\<exists>e. split_segments g sn names poss = (Inl e, g)))
   \<and> (segs = [] \<or> (\<exists>s\<in>set segs. \<exists>e. py_int s = Inl e \<or> get_segment_position g s = Inl e)
        \<longrightarrow> (\<exists>e. merge_segments L g segs = (Inl e, g)))"
proof (intro conjI allI impI)
  fix e assume "get_segment_position g sn = Inl e"
  then show "split_segments g sn names poss = (Inl e, g)"
    by (simp add: split_segments_def split_segments_on_def)
next
  assume "length (names_of names) \<noteq> length (pos_of poss)"
  then show "\<exists>e. split_segments g sn names poss = (Inl e, g)"
    by (cases "get_segment_position g sn") (simp_all add: split_segments_def split_segments_on_def)
next
  assume a: "segs = [] \<or> (\<exists>s\<in>set segs. \<exists>e. py_int s = Inl e \<or> get_segment_position g s = Inl e)"
  show "\<exists>e. merge_segments L g segs = (Inl e, g)"
  proof (cases "segs = []")
    case True
    then show ?thesis
      by (simp add: merge_segments_def merge_positions_def bindE_def nth_e_def)
  next
    case False
    with a obtain e where "merge_positions g segs = Inl e"
      using merge_positions_fails by blast
    then show ?thesis by (simp add: merge_segments_def)
  qed
qed


theorem editor_early_failures_witness:
  "split_segments g_two ''7'' (NameList [''10'']) (PosList [2]) = (Inl ValueError, g_two)
   \<and> (\<exists>e. split_segments g_two ''1'' (NameList [''10'']) (PosList [1, 2]) = (Inl e, g_two))
   \<and> (\<forall>L. \<exists>e. merge_segments L g_two [''1'', ''x''] = (Inl e, g_two))"
proof (intro conjI allI)
  have a: "get_segment_position g_two ''7'' = Inl ValueError"
    by (simp add: g_two_def get_segment_position_def getitem_def)
  show "split_segments g_two ''7'' (NameList [''10'']) (PosList [2]) = (Inl ValueError, g_two)"
    using editor_early_failures [of g_two "''7''" "NameList [''10'']" "PosList [2]"] a by blast
  have b: "length (names_of (NameList [''10''])) \<noteq> length (pos_of (PosList [1, 2]))"
    by simp
  show "\<exists>e. split_segments g_two ''1'' (NameList [''10'']) (PosList [1, 2]) = (Inl e, g_two)"
    using editor_early_failures [of g_two "''1''" "NameList [''10'']" "PosList [1, 2]"] b by blast
  fix L
  have c: "py_int ''x'' = Inl ValueError"
    by (simp add: eval_defs)
  have "[''1'', ''x''] = [] \<or> (\<exists>s\<in>set [''1'', ''x'']. \<exists>e. py_int s = Inl e \<or> get_segment_position g_two s = Inl e)"
    using c by auto
  then show "\<exists>e. merge_segments L g_two [''1'', ''x''] = (Inl e, g_two)"
    using editor_early_failures [of g_two _ _ _ "[''1'', ''x'']" L] by blast
qed

text \<open>
  The claim as stated fails: the split of the scenario raises after it has rewritten an
  edge and cut a sequence, and the merge of segments 1 and 2 raises KeyError in the edge
  lookup after it has changed the length and the sequence of segment 1.
\<close>

theorem editor_atomicity_counterexample:
  "fst (split_segments g_two ''1'' (NameList [''10'']) (PosList [2])) = Inl AttributeError
   \<and> segments (snd (split_segments g_two ''1'' (NameList [''10'']) (PosList [2])))
       \<noteq> segments g_two
   \<and> lines (snd (split_segments g_two ''1'' (NameList [''10'']) (PosList [2]))) \<noteq> lines g_two
   \<and> (\<forall>L. fst (merge_segments L g_two [''1'', ''2'']) = Inl KeyError
          \<and> segments (snd (merge_segments L g_two [''1'', ''2''])) \<noteq> segments g_two)"
  by (simp add: g_two_def split_defs merge_defs eval_defs)

section \<open>Properties: serializer and tag codec\<close>

text \<open>The definitions a closed example of loading and saving unfolds.\<close>

lemmas save_defs = Graph_init_def Record_def GfaStyle_of_def LineType_type_def LineType_func_def
  segment_def line_def dict_merge_def of_kind_def save_graph_def header_text_def segment_text_def
  line_text_def tags_text_def tag_text_def dtype_def write_path_def path_steps_def
  get_path_list_def sequence_of_def enumerate_eq_zip TAB_def NL_def file_lines_def CR_def

text \<open>
  Claim C7 (the scenario of the spec). The file with the lines \<^verbatim>\<open>S 1 ACGT\<close>,
  \<^verbatim>\<open>S 2 GGTT\<close> and \<^verbatim>\<open>L 1 + 2 + *\<close> (fields separated by tabs) loads, with sequences, to
  the graph \<open>g_two\<close>. Saving that graph without an edit writes three lines that end in a
  newline, but each S-line carries a tab after the sequence: the tag list is joined behind
  an unconditional tab and is empty here. The text written is not the text read.
\<close>

theorem save_two_segment_file:
  "\<forall>L. file_lines (join [TAB] [''S'', ''1'', ''ACGT''] @ [NL]
                    @ join [TAB] [''S'', ''2'', ''GGTT''] @ [NL]
                    @ join [TAB] [''L'', ''1'', ''+'', ''2'', ''+'', ''*''])
         = [join [TAB] [''S'', ''1'', ''ACGT''] @ [NL],
            join [TAB] [''S'', ''2'', ''GGTT''] @ [NL],
            join [TAB] [''L'', ''1'', ''+'', ''2'', ''+'', ''*'']]
     \<and> Graph_init L [join [TAB] [''S'', ''1'', ''ACGT''] @ [NL],
                      join [TAB] [''S'', ''2'', ''GGTT''] @ [NL],
                      join [TAB] [''L'', ''1'', ''+'', ''2'', ''+'', ''*'']] ''GFA1'' True
         = Inr g_two
     \<and> save_graph L g_two None
         = Inr (join [TAB] [''S'', ''1'', ''ACGT'', ''''] @ [NL]
                @ join [TAB] [''S'', ''2'', ''GGTT'', ''''] @ [NL]
                @ join [TAB] [''L'', ''1'', ''+'', ''2'', ''+'', ''*''] @ [NL])
     \<and> save_graph L g_two None
         \<noteq> Inr (join [TAB] [''S'', ''1'', ''ACGT''] @ [NL]
                @ join [TAB] [''S'', ''2'', ''GGTT''] @ [NL]
                @ join [TAB] [''L'', ''1'', ''+'', ''2'', ''+'', ''*''] @ [NL])"
  by (simp add: g_two_def save_defs eval_defs)

text \<open>
  Claim C8 (at failing inputs). A JSON \<^verbatim>\<open>true\<close> is the value \<^verbatim>\<open>True\<close>; \<^verbatim>\<open>dtype\<close> gives it
  the letter \<^verbatim>\<open>i\<close> (a bool is an int), the serializer writes \<^verbatim>\<open>XX:i:True\<close>, and decoding
  that text raises ValueError, so a header line saved with such a tag does not load
  again. A JSON \<^verbatim>\<open>null\<close> is \<^verbatim>\<open>None\<close>; it keeps the letter \<^verbatim>\<open>J\<close> but is written as
  \<^verbatim>\<open>None\<close>, so decoding calls \<^verbatim>\<open>json.loads("None")\<close>.
\<close>

theorem tag_round_trip_fails:
  "\<forall>L. dtype (PBool True) = Inr ''i''
     \<and> tag_text L (''XX'', PBool True) = Inr ''XX:i:True''
     \<and> bindE (gtype ''i'') (\<lambda>c. apply_cast L c (py_str L (PBool True))) = Inl ValueError
     \<and> header_text L [(''XX'', PBool True)] = Inr (join [TAB] [''H'', ''XX:i:True''] @ [NL])
     \<and> header L [''H'', ''XX:i:True''] GFA1 = Inl ValueError
     \<and> dtype PNone = Inr ''J''
     \<and> tag_text L (''XX'', PNone) = Inr ''XX:J:None''
     \<and> bindE (gtype ''J'') (\<lambda>c. apply_cast L c (py_str L PNone)) = json_loads L ''None''"
  by (simp add: header_def save_defs eval_defs)


lemma is_digit_digit_char: "d < 10 \<Longrightarrow> is_digit (digit_char d)"
proof -
  assume "d < 10"
  then have "d \<in> {0,1,2,3,4,5,6,7,8,9}" by auto
  then show ?thesis by (auto simp: is_digit_def digit_char_def)
qed

lemma str_nat_digits: "str_nat n \<noteq> [] \<and> (\<forall>c\<in>set (str_nat n). is_digit c)"
proof (induction n rule: str_nat.induct)
  case (1 n)
  show ?case
  proof (cases "n < 10")
    case True
    then show ?thesis by (subst (1 2) str_nat.simps) (simp add: is_digit_digit_char)
  next
    case False
    then show ?thesis using 1 by (subst (1 2) str_nat.simps) (simp add: is_digit_digit_char)
  qed
qed

lemma digit_not_special:
  "is_digit c \<Longrightarrow> \<not> py_isspace c \<and> c \<noteq> CHR ''_'' \<and> c \<noteq> CHR ''-'' \<and> c \<noteq> CHR ''+''"
  by (auto simp: is_digit_def py_isspace_def)

lemma digits_us_all: "s \<noteq> [] \<Longrightarrow> \<forall>c\<in>set s. is_digit c \<Longrightarrow> digits_us s"
proof (induction s rule: digits_us.induct)
  case 1
  then show ?case by simp
next
  case (2 c)
  then show ?case by simp
next
  case (3 c d r)
  then have "d \<noteq> CHR ''_''" using digit_not_special by auto
  then show ?case using 3 by simp
qed

lemma strip_noop: "s \<noteq> [] \<Longrightarrow> \<not> P (hd s) \<Longrightarrow> \<not> P (last s) \<Longrightarrow> strip P s = s"
proof -
  assume a: "s \<noteq> []" and b: "\<not> P (hd s)" and c: "\<not> P (last s)"
  have "dropWhile P s = s" using a b by (cases s) simp_all
  moreover have "dropWhile P (rev s) = rev s"
    using a c by (cases "rev s") (simp_all add: last_rev [symmetric] hd_rev)
  ultimately show ?thesis by (simp add: strip_def)
qed

lemma py_int_plain:
  assumes "strip py_isspace s = c # r" and "c \<noteq> CHR ''-''" and "c \<noteq> CHR ''+''"
    and "digits_us (c # r)" and "filter is_digit (c # r) = c # r"
    and "length (c # r) \<le> 4300"
  shows "py_int s = Inr (int (val_digits (c # r)))"
  unfolding py_int_def Let_def assms(1) using assms(2-6)
  by (simp only: list.case if_False simp_thms mult_1 if_True)

lemma py_int_minus:
  assumes "strip py_isspace s = CHR ''-'' # r"
    and "digits_us r" and "filter is_digit r = r" and "length r \<le> 4300"
  shows "py_int s = Inr (- int (val_digits r))"
  unfolding py_int_def Let_def assms(1) using assms(2-4) by simp

lemma py_int_str_nat: "length (str_nat n) \<le> 4300 \<Longrightarrow> py_int (str_nat n) = Inr (int n)"
proof -
  assume small: "length (str_nat n) \<le> 4300"
  let ?s = "str_nat n"
  have ne: "?s \<noteq> []" and dg: "\<forall>c\<in>set ?s. is_digit c" using str_nat_digits by auto
  have h: "is_digit (hd ?s)" and l: "is_digit (last ?s)" using ne dg by auto
  have st: "strip py_isspace ?s = ?s"
    using ne h l digit_not_special by (intro strip_noop) auto
  obtain c r where cr: "?s = c # r" using ne by (cases ?s) auto
  have c: "c \<noteq> CHR ''-''" "c \<noteq> CHR ''+''" using h cr digit_not_special by auto
  have f: "filter is_digit ?s = ?s" using dg by (simp add: filter_id_conv)
  have d: "digits_us ?s" using ne dg by (rule digits_us_all)
  have "py_int ?s = Inr (int (val_digits (c # r)))"
    using st c d f small unfolding cr by (intro py_int_plain)
  then show ?thesis by (simp add: cr [symmetric] val_digits_str_nat)
qed

lemma py_int_str_int:
  "length (str_nat (nat \<bar>i\<bar>)) \<le> 4300 \<Longrightarrow> py_int (str_int i) = Inr i"
proof (cases "i < 0")
  case False
  assume "length (str_nat (nat \<bar>i\<bar>)) \<le> 4300"
  then show ?thesis using False by (simp add: str_int_def py_int_str_nat)
next
  case True
  assume small: "length (str_nat (nat \<bar>i\<bar>)) \<le> 4300"
  let ?r = "str_nat (nat (- i))"
  have sm: "length ?r \<le> 4300" using small True by simp
  have ne: "?r \<noteq> []" and dg: "\<forall>c\<in>set ?r. is_digit c" using str_nat_digits by auto
  have l: "is_digit (last ?r)" using ne dg by auto
  have st: "strip py_isspace (CHR ''-'' # ?r) = CHR ''-'' # ?r"
    using ne l digit_not_special by (intro strip_noop) (auto simp: py_isspace_def)
  have f: "filter is_digit ?r = ?r" using dg by (simp add: filter_id_conv)
  have d: "digits_us ?r" using ne dg by (rule digits_us_all)
  have "py_int (CHR ''-'' # ?r) = Inr (- int (val_digits ?r))"
    using st d f sm by (rule py_int_minus)
  then show ?thesis using True by (simp add: str_int_def val_digits_str_nat)
qed

text \<open>
  The part of the round trip that holds: an int of at most 4300 digits and a str come
  back from the text the serializer writes for them, decoded with the letter \<^verbatim>\<open>dtype\<close>
  infers.
\<close>

lemma int_str_round_trip:
  "length (str_nat (nat \<bar>i\<bar>)) \<le> 4300 \<Longrightarrow>
   bindE (dtype (PInt i)) (\<lambda>t. bindE (gtype t) (\<lambda>c. apply_cast L c (py_str L (PInt i))))
     = Inr (PInt i)
   \<and> bindE (dtype (PStr s)) (\<lambda>t. bindE (gtype t) (\<lambda>c. apply_cast L c (py_str L (PStr s))))
     = Inr (PStr s)"
  by (simp add: dtype_def gtype_def bindE_def apply_cast_def py_int_str_int)

section \<open>Properties: paths under a split\<close>




section \<open>Properties: trailing tokens of a P-line\<close>

text \<open>
  Claim C10 (at the failing input). The P-line \<^verbatim>\<open>P p 1+,2+ * XX:i:5\<close> has three fixed
  fields (the letter, the name, the steps) and two trailing tokens. The parser \<^verbatim>\<open>path\<close>
  reads the fields 1 and 2 and calls the extra-fields step with the count 7, so the record
  holds \<^verbatim>\<open>name\<close> and \<^verbatim>\<open>path\<close> only: the token \<^verbatim>\<open>*\<close> is stored under no \<^verbatim>\<open>ARG\<close> key and the
  tag \<^verbatim>\<open>XX\<close> is not decoded. With the count 3 the step would store \<^verbatim>\<open>ARG3\<close> and \<^verbatim>\<open>XX\<close>,
  as the parser \<^verbatim>\<open>segment\<close> does for the same trailing tokens of an S-line.
\<close>

theorem path_line_drops_tokens:
  "\<forall>L. path L [''P'', ''p'', ''1+,2+'', ''*'', ''XX:i:5''] GFA1
         = Inr [(''name'', PStr ''p''), (''path'', PPath [(''1'', FORWARD), (''2'', FORWARD)])]
     \<and> supplementary_datas L [''P'', ''p'', ''1+,2+'', ''*'', ''XX:i:5''] 3
         = Inr [(''ARG3'', PStr ''*''), (''XX'', PInt 5)]
     \<and> supplementary_datas L [''P'', ''p'', ''1+,2+'', ''*'', ''XX:i:5''] 7 = Inr []
     \<and> segment L [''S'', ''1'', ''ACGT'', ''*'', ''XX:i:5''] GFA1 True
         = Inr [(''name'', PStr ''1''), (''length'', PInt 4), (''seq'', PStr ''ACGT''),
                (''ARG3'', PStr ''*''), (''XX'', PInt 5)]"
  by (simp add: path_def path_node_def Orientation_of_def segment_def dict_merge_def eval_defs)

text \<open>A P-line of at most seven fields never stores a trailing token.\<close>

lemma path_stores_no_token:
  "length datas \<le> 7 \<Longrightarrow> path L datas st = Inr d \<Longrightarrow> map fst d = [''name'', ''path'']"
  by (auto simp: path_def bindE_def supplementary_datas_def dict_merge_def Let_def
      split: if_splits sum.splits)


end
